theory Spec2Isabelle
  imports Main "HOL-Library.AList" "HOL-Library.List_Lexorder" "HOL-Library.Char_ord"
begin

section \<open>Class view utilities (classviewutils.cpp)\<close>

subsection \<open>The Qt data model used by the class view\<close>

text \<open>
  The item roles of classviewconstants.h, an enumeration starting at \<open>Qt::UserRole + 1\<close>.
  \<open>OtherRole\<close> stands for every role of Qt itself (after the aliasing of the edit role
  to the display role that \<open>QStandardItem\<close> performs on reading and on writing).
\<close>

datatype ItemRole =
    SymbolLocationsRole
  | IconTypeRole
  | SymbolNameRole
  | SymbolTypeRole
  | OtherRole int

text \<open>
  A \<open>QVariant\<close> holding one of the kinds of value the class view stores in an item:
  a \<open>QString\<close>, an \<open>int\<close> or a \<open>SymbolLocation\<close> (the type parameter), or nothing.
\<close>

datatype 'l QVariant =
    Invalid
  | VString string
  | VInt int
  | VLocation 'l

text \<open>
  The two conversions of Qt between numbers and strings (\<open>QString::number\<close> and
  \<open>QString::toInt\<close>, the latter with its success flag) are parameters of the model:
  nothing below depends on what they compute.
\<close>

record QtConversions =
  number :: "int \<Rightarrow> string"
  stringToInt :: "string \<Rightarrow> int \<times> bool"

fun isValid :: "'l QVariant \<Rightarrow> bool" where
  "isValid Invalid = False"
| "isValid (VString s) = True"
| "isValid (VInt n) = True"
| "isValid (VLocation l) = True"

fun toString :: "QtConversions \<Rightarrow> 'l QVariant \<Rightarrow> string" where
  "toString qt (VString s) = s"
| "toString qt (VInt n) = number qt n"
| "toString qt Invalid = []"
| "toString qt (VLocation l) = []"

text \<open>\<open>QVariant::toInt(&ok)\<close>: the value and the flag; the value is 0 when the flag is false.\<close>

fun toInt :: "QtConversions \<Rightarrow> 'l QVariant \<Rightarrow> int \<times> bool" where
  "toInt qt (VInt n) = (n, True)"
| "toInt qt (VString s) = stringToInt qt s"
| "toInt qt Invalid = (0, False)"
| "toInt qt (VLocation l) = (0, False)"

text \<open>\<open>canConvert<SymbolLocation>()\<close> and \<open>value<SymbolLocation>()\<close> as one partial function.\<close>

fun toSymbolLocation :: "'l QVariant \<Rightarrow> 'l option" where
  "toSymbolLocation (VLocation l) = Some l"
| "toSymbolLocation Invalid = None"
| "toSymbolLocation (VString s) = None"
| "toSymbolLocation (VInt n) = None"

text \<open>
  A \<open>QStandardItem\<close> of a one-column model: the data stored under each role (an invalid
  variant where nothing is stored) and the child rows. Items are values here: the target
  is \<open>const\<close> and a tree of its own, apart from the item. Pointers to items are not null
  in the model: a call of \<open>fetchItemToTarget\<close> or \<open>moveItemToTarget\<close> with a null pointer
  returns at once and changes nothing, \<open>symbolInformationFromItem\<close> asserts that its
  argument is not null, and every call these functions make themselves is on rows below
  the row count.
\<close>

datatype 'l QStandardItem =
  QStandardItem (data: "ItemRole \<Rightarrow> 'l QVariant") (rows: "'l QStandardItem list")

definition setData :: "'l QStandardItem \<Rightarrow> 'l QVariant \<Rightarrow> ItemRole \<Rightarrow> 'l QStandardItem" where
  "setData item v role = QStandardItem ((data item)(role := v)) (rows item)"

definition rowCount :: "'l QStandardItem \<Rightarrow> nat" where
  "rowCount item = length (rows item)"

text \<open>
  \<open>child(row)\<close>, read by the loops below only at rows under \<open>rowCount\<close>: they keep the
  cached row count of the source equal to \<open>rowCount\<close> (\<open>loopInv\<close> below, with the lemmas
  \<open>loopInv_start\<close>, \<open>loopInv_read\<close> and one lemma for each kind of step).
\<close>

definition child :: "'l QStandardItem \<Rightarrow> nat \<Rightarrow> 'l QStandardItem" where
  "child item row = rows item ! row"

text \<open>\<open>removeRow\<close> and \<open>insertRow\<close> do nothing when the row is out of range.\<close>

definition removeRow :: "'l QStandardItem \<Rightarrow> nat \<Rightarrow> 'l QStandardItem" where
  "removeRow item row =
     (if row < rowCount item
      then QStandardItem (data item) (take row (rows item) @ drop (Suc row) (rows item))
      else item)"

definition insertRow :: "'l QStandardItem \<Rightarrow> nat \<Rightarrow> 'l QStandardItem \<Rightarrow> 'l QStandardItem" where
  "insertRow item row c =
     (if row \<le> rowCount item
      then QStandardItem (data item) (take row (rows item) @ c # drop row (rows item))
      else item)"

definition appendRow :: "'l QStandardItem \<Rightarrow> 'l QStandardItem \<Rightarrow> 'l QStandardItem" where
  "appendRow item c = insertRow item (rowCount item) c"

text \<open>\<open>QStandardItem::clone\<close> copies the data of the item; the children are not copied.\<close>

definition clone :: "'l QStandardItem \<Rightarrow> 'l QStandardItem" where
  "clone item = QStandardItem (data item) []"

text \<open>
  The source changes a child through a pointer into the tree; with items as values the
  changed child is written back at its row.
\<close>

definition putChild :: "'l QStandardItem \<Rightarrow> nat \<Rightarrow> 'l QStandardItem \<Rightarrow> 'l QStandardItem" where
  "putChild item row c = QStandardItem (data item) ((rows item)[row := c])"

subsection \<open>Symbol information\<close>

text \<open>
  \<open>SymbolInformation\<close> as the source builds and reads it: a name, a type and an icon type.
  Its \<open>operator==\<close> is equality of the three. Its \<open>operator<\<close> is defined with the
  class (classviewsymbolinformation.cpp), not in classviewutils.cpp: it is the parameter
  \<open>lt\<close> of the functions that compare, and nothing is assumed of it in the definitions.
\<close>

datatype SymbolInformation =
  SymbolInformation (name: string) (type: string) (iconType: int)

subsection \<open>Locations and roles\<close>

text \<open>
  \<open>locationsToRole\<close>: the argument is the sequence in which \<open>foreach\<close> visits the
  \<open>QSet\<close> (any order).
\<close>

definition locationsToRole :: "'l list \<Rightarrow> 'l QVariant list" where
  "locationsToRole locations =
     fold (\<lambda>loc locationsVar. locationsVar @ [VLocation loc]) locations []"

definition roleToLocations :: "'l QVariant list \<Rightarrow> 'l set" where
  "roleToLocations locationsVar =
     fold (\<lambda>loc locations.
             case toSymbolLocation loc of
               Some l \<Rightarrow> insert l locations
             | None \<Rightarrow> locations)
          locationsVar {}"

subsection \<open>Icon sort order\<close>

text \<open>
  The enumerators of \<open>Utils::CodeModelIcon\<close> that the table names. Their integer values
  are declared with the enumeration (cplusplus/Icons.h): \<open>code\<close> below is that assignment.
\<close>

datatype CodeModelIcon =
    Namespace | Enum | Class
  | FuncPublic | FuncProtected | FuncPrivate
  | FuncPublicStatic | FuncProtectedStatic | FuncPrivateStatic
  | Signal | SlotPublic | SlotProtected | SlotPrivate
  | VarPublic | VarProtected | VarPrivate
  | VarPublicStatic | VarProtectedStatic | VarPrivateStatic
  | Enumerator | Keyword | Macro | Unknown

definition IconSortOrder :: "(CodeModelIcon \<Rightarrow> int) \<Rightarrow> int list" where
  "IconSortOrder code = map code
     [Namespace, Enum, Class,
      FuncPublic, FuncProtected, FuncPrivate,
      FuncPublicStatic, FuncProtectedStatic, FuncPrivateStatic,
      Signal, SlotPublic, SlotProtected, SlotPrivate,
      VarPublic, VarProtected, VarPrivate,
      VarPublicStatic, VarProtectedStatic, VarPrivateStatic,
      Enumerator, Keyword, Macro, Unknown]"

text \<open>
  \<open>QHash<int, int>\<close> as an association list with one entry per key: \<open>insert\<close> replaces
  the value of a key already there, \<open>count\<close> is the number of keys.
\<close>

type_synonym QHashIntInt = "(int \<times> int) list"

definition hashInsert :: "int \<Rightarrow> int \<Rightarrow> QHashIntInt \<Rightarrow> QHashIntInt" where
  "hashInsert k v h = AList.update k v h"

definition hashCount :: "QHashIntInt \<Rightarrow> int" where
  "hashCount h = int (length h)"

definition hashContains :: "QHashIntInt \<Rightarrow> int \<Rightarrow> bool" where
  "hashContains h k = (map_of h k \<noteq> None)"

definition hashValue :: "QHashIntInt \<Rightarrow> int \<Rightarrow> int" where
  "hashValue h k = (case map_of h k of Some v \<Rightarrow> v | None \<Rightarrow> 0)"

text \<open>
  \<open>iconTypeSortOrder\<close>: the function-local static \<open>sortOrder\<close> is passed in and returned.
  It is empty before the first call.
\<close>

definition iconTypeSortOrder ::
    "(CodeModelIcon \<Rightarrow> int) \<Rightarrow> QHashIntInt \<Rightarrow> int \<Rightarrow> int \<times> QHashIntInt" where
  "iconTypeSortOrder code sortOrder icon =
     (let sortOrder =
            (if sortOrder = []
             then fold (\<lambda>i sortOrder. hashInsert i (hashCount sortOrder) sortOrder)
                       (IconSortOrder code) sortOrder
             else sortOrder)
      in if \<not> hashContains sortOrder icon
         then (icon, sortOrder)
         else (hashValue sortOrder icon, sortOrder))"

text \<open>An assignment of distinct values to the enumerators, for the examples.\<close>

definition exampleIconCode :: "CodeModelIcon \<Rightarrow> int" where
  "exampleIconCode k =
     (case k of
        Class \<Rightarrow> 0 | Enum \<Rightarrow> 2 | Enumerator \<Rightarrow> 3
      | FuncPublic \<Rightarrow> 4 | FuncProtected \<Rightarrow> 5 | FuncPrivate \<Rightarrow> 6
      | FuncPublicStatic \<Rightarrow> 7 | FuncProtectedStatic \<Rightarrow> 8 | FuncPrivateStatic \<Rightarrow> 9
      | Namespace \<Rightarrow> 10
      | VarPublic \<Rightarrow> 11 | VarProtected \<Rightarrow> 12 | VarPrivate \<Rightarrow> 13
      | VarPublicStatic \<Rightarrow> 14 | VarProtectedStatic \<Rightarrow> 15 | VarPrivateStatic \<Rightarrow> 16
      | Signal \<Rightarrow> 17 | SlotPublic \<Rightarrow> 18 | SlotProtected \<Rightarrow> 19 | SlotPrivate \<Rightarrow> 20
      | Keyword \<Rightarrow> 21 | Macro \<Rightarrow> 22 | Unknown \<Rightarrow> 24)"

subsection \<open>Items and symbol information\<close>

definition setSymbolInformationToItem ::
    "SymbolInformation \<Rightarrow> 'l QStandardItem \<Rightarrow> 'l QStandardItem" where
  "setSymbolInformationToItem information item =
     (let item = setData item (VString (name information)) SymbolNameRole;
          item = setData item (VString (type information)) SymbolTypeRole;
          item = setData item (VInt (iconType information)) IconTypeRole
      in item)"

definition symbolInformationFromItem ::
    "QtConversions \<Rightarrow> 'l QStandardItem \<Rightarrow> SymbolInformation" where
  "symbolInformationFromItem qt item =
     (let name = toString qt (data item SymbolNameRole);
          type = toString qt (data item SymbolTypeRole);
          iconType = 0;
          var = data item IconTypeRole;
          (val, ok) = (if isValid var then toInt qt var else (0, False));
          iconType = (if ok then val else iconType)
      in SymbolInformation name type iconType)"

subsection \<open>Reconciling an item with a target\<close>

text \<open>
  The local variables of \<open>fetchItemToTarget\<close> and \<open>moveItemToTarget\<close>: the item as changed
  so far, the two row indices, and the cached row count of the item. The row count of
  the target is not cached in the model: the target never changes. The indices are
  natural numbers: the source never decrements an index, and decrements the row count
  only where it is above the index.
\<close>

record 'l LoopState =
  itemNow :: "'l QStandardItem"
  itemIndex :: nat
  targetIndex :: nat
  itemRows :: nat

definition itemChild :: "'l LoopState \<Rightarrow> 'l QStandardItem" where
  "itemChild s = child (itemNow s) (itemIndex s)"

definition targetChild :: "'l QStandardItem \<Rightarrow> 'l LoopState \<Rightarrow> 'l QStandardItem" where
  "targetChild target s = child target (targetIndex s)"

definition itemInf :: "QtConversions \<Rightarrow> 'l LoopState \<Rightarrow> SymbolInformation" where
  "itemInf qt s = symbolInformationFromItem qt (itemChild s)"

definition targetInf ::
    "QtConversions \<Rightarrow> 'l QStandardItem \<Rightarrow> 'l LoopState \<Rightarrow> SymbolInformation" where
  "targetInf qt target s = symbolInformationFromItem qt (targetChild target s)"

text \<open>\<open>item->removeRow(itemIndex)\<close>\<close>

definition removeItemRow :: "'l LoopState \<Rightarrow> 'l LoopState" where
  "removeItemRow s = s\<lparr>itemNow := removeRow (itemNow s) (itemIndex s)\<rparr>"

text \<open>\<open>item->insertRow(itemIndex, targetChild->clone())\<close>\<close>

definition insertClone :: "'l QStandardItem \<Rightarrow> 'l LoopState \<Rightarrow> 'l LoopState" where
  "insertClone target s =
     s\<lparr>itemNow := insertRow (itemNow s) (itemIndex s) (clone (targetChild target s))\<rparr>"

text \<open>\<open>item->appendRow(target->child(targetIndex)->clone())\<close>\<close>

definition appendClone :: "'l QStandardItem \<Rightarrow> 'l LoopState \<Rightarrow> 'l LoopState" where
  "appendClone target s = s\<lparr>itemNow := appendRow (itemNow s) (clone (targetChild target s))\<rparr>"

text \<open>The child at \<open>itemIndex\<close> after a call that changed it in place.\<close>

definition putItemChild :: "'l LoopState \<Rightarrow> 'l QStandardItem \<Rightarrow> 'l LoopState" where
  "putItemChild s c = s\<lparr>itemNow := putChild (itemNow s) (itemIndex s) c\<rparr>"

text \<open>The first loop of \<open>fetchItemToTarget\<close>.\<close>

function fetchMergeLoop ::
    "QtConversions \<Rightarrow> (SymbolInformation \<Rightarrow> SymbolInformation \<Rightarrow> bool) \<Rightarrow>
     'l QStandardItem \<Rightarrow> 'l LoopState \<Rightarrow> 'l LoopState" where
  "fetchMergeLoop qt lt target s =
     (if itemIndex s < itemRows s \<and> targetIndex s < rowCount target then
        if lt (itemInf qt s) (targetInf qt target s) then
          fetchMergeLoop qt lt target (s\<lparr>itemIndex := itemIndex s + 1\<rparr>)
        else if itemInf qt s = targetInf qt target s then
          fetchMergeLoop qt lt target
            (s\<lparr>itemIndex := itemIndex s + 1, targetIndex := targetIndex s + 1\<rparr>)
        else
          fetchMergeLoop qt lt target
            ((insertClone target s)
               \<lparr>itemIndex := itemIndex s + 1, itemRows := itemRows s + 1,
                targetIndex := targetIndex s + 1\<rparr>)
      else s)"
  by pat_completeness auto
termination
  by (relation "measure (\<lambda>(qt, lt, target, s).
        (itemRows s - itemIndex s) + (rowCount target - targetIndex s))")
     (auto simp: insertClone_def)

text \<open>The second loop of \<open>fetchItemToTarget\<close> (append).\<close>

function fetchAppendLoop :: "'l QStandardItem \<Rightarrow> 'l LoopState \<Rightarrow> 'l LoopState" where
  "fetchAppendLoop target s =
     (if targetIndex s < rowCount target then
        fetchAppendLoop target ((appendClone target s)\<lparr>targetIndex := targetIndex s + 1\<rparr>)
      else s)"
  by pat_completeness auto
termination
  by (relation "measure (\<lambda>(target, s). rowCount target - targetIndex s)")
     (auto simp: appendClone_def)

definition fetchItemToTarget ::
    "QtConversions \<Rightarrow> (SymbolInformation \<Rightarrow> SymbolInformation \<Rightarrow> bool) \<Rightarrow>
     'l QStandardItem \<Rightarrow> 'l QStandardItem \<Rightarrow> 'l QStandardItem" where
  "fetchItemToTarget qt lt item target =
     itemNow (fetchAppendLoop target (fetchMergeLoop qt lt target
       \<lparr>itemNow = item, itemIndex = 0, targetIndex = 0, itemRows = rowCount item\<rparr>))"

text \<open>The last loop of \<open>moveItemToTarget\<close> (remove end of item).\<close>

function removeLoop :: "'l LoopState \<Rightarrow> 'l LoopState" where
  "removeLoop s =
     (if itemIndex s < itemRows s
      then removeLoop ((removeItemRow s)\<lparr>itemRows := itemRows s - 1\<rparr>)
      else s)"
  by pat_completeness auto

lemma removeLoop_calls_wellfounded: "All (removeLoop_dom :: 'l LoopState \<Rightarrow> bool)"
  by (relation "measure (\<lambda>s. itemRows s - itemIndex s)") (auto simp: removeItemRow_def)

termination removeLoop
  by (rule removeLoop_calls_wellfounded)

text \<open>
  \<open>moveItemToTarget\<close> with its first two loops, which call it on the children. A call on
  a child changes the child in place; here its result is put back at the row of the
  child.
\<close>

function moveItemToTarget ::
    "QtConversions \<Rightarrow> (SymbolInformation \<Rightarrow> SymbolInformation \<Rightarrow> bool) \<Rightarrow>
     'l QStandardItem \<Rightarrow> 'l QStandardItem \<Rightarrow> 'l QStandardItem"
  and moveMergeLoop ::
    "QtConversions \<Rightarrow> (SymbolInformation \<Rightarrow> SymbolInformation \<Rightarrow> bool) \<Rightarrow>
     'l QStandardItem \<Rightarrow> 'l LoopState \<Rightarrow> 'l LoopState"
  and moveAppendLoop ::
    "QtConversions \<Rightarrow> (SymbolInformation \<Rightarrow> SymbolInformation \<Rightarrow> bool) \<Rightarrow>
     'l QStandardItem \<Rightarrow> 'l LoopState \<Rightarrow> 'l LoopState"
where
  "moveItemToTarget qt lt item target =
     itemNow (removeLoop (moveAppendLoop qt lt target (moveMergeLoop qt lt target
       \<lparr>itemNow = item, itemIndex = 0, targetIndex = 0, itemRows = rowCount item\<rparr>)))"
| "moveMergeLoop qt lt target s =
     (if itemIndex s < itemRows s \<and> targetIndex s < rowCount target then
        if lt (itemInf qt s) (targetInf qt target s) then
          moveMergeLoop qt lt target ((removeItemRow s)\<lparr>itemRows := itemRows s - 1\<rparr>)
        else if itemInf qt s = targetInf qt target s then
          moveMergeLoop qt lt target
            ((putItemChild s (moveItemToTarget qt lt (itemChild s) (targetChild target s)))
               \<lparr>itemIndex := itemIndex s + 1, targetIndex := targetIndex s + 1\<rparr>)
        else
          moveMergeLoop qt lt target
            ((putItemChild (insertClone target s)
                (moveItemToTarget qt lt (itemChild (insertClone target s)) (targetChild target s)))
               \<lparr>itemIndex := itemIndex s + 1, itemRows := itemRows s + 1,
                targetIndex := targetIndex s + 1\<rparr>)
      else s)"
| "moveAppendLoop qt lt target s =
     (if targetIndex s < rowCount target then
        moveAppendLoop qt lt target
          ((putItemChild (appendClone target s)
              (moveItemToTarget qt lt (itemChild (appendClone target s)) (targetChild target s)))
             \<lparr>itemIndex := itemIndex s + 1, itemRows := itemRows s + 1,
              targetIndex := targetIndex s + 1\<rparr>)
      else s)"
  by pat_completeness auto

text \<open>
  Every call chain ends: a call of \<open>moveItemToTarget\<close> from a loop is on a child of the
  target, and a loop calling itself has either removed a row of the item or advanced in
  the target.
\<close>

lemma moveItemToTarget_calls_wellfounded:
  "All (moveItemToTarget_moveMergeLoop_moveAppendLoop_dom ::
     (QtConversions \<times> (SymbolInformation \<Rightarrow> SymbolInformation \<Rightarrow> bool) \<times>
        'l QStandardItem \<times> 'l QStandardItem +
      QtConversions \<times> (SymbolInformation \<Rightarrow> SymbolInformation \<Rightarrow> bool) \<times>
        'l QStandardItem \<times> 'l LoopState +
      QtConversions \<times> (SymbolInformation \<Rightarrow> SymbolInformation \<Rightarrow> bool) \<times>
        'l QStandardItem \<times> 'l LoopState) \<Rightarrow> bool)"
proof (relation "inv_image (less_than <*lex*> less_than)
    (\<lambda>x. case x of
        Inl (qt, lt, item, target) \<Rightarrow> (2 * size target, 0)
      | Inr (Inl (qt, lt, target, s)) \<Rightarrow>
          (2 * size_list size (rows target) + 1,
           (itemRows s - itemIndex s) + (rowCount target - targetIndex s))
      | Inr (Inr (qt, lt, target, s)) \<Rightarrow>
          (2 * size_list size (rows target) + 1, rowCount target - targetIndex s))",
    goal_cases)
  have whole: "size target = Suc (size_list size (rows target))"
    for target :: "'l QStandardItem"
    by (cases target) simp
  have member: "x \<in> set xs \<Longrightarrow> size x < size_list size xs"
    for x :: "'l QStandardItem" and xs
    by (induction xs) auto
  have part: "targetIndex s < rowCount target \<Longrightarrow>
      size (targetChild target s) < size_list size (rows target)"
    for target :: "'l QStandardItem" and s :: "'l LoopState"
    unfolding rowCount_def targetChild_def child_def by (rule member) simp
  {
    case 1
    show ?case by (intro wf_inv_image wf_lex_prod wf_less_than)
  next
    case 2
    show ?case by (simp add: whole)
  next
    case 3
    show ?case by (simp add: whole)
  next
    case 4
    then show ?case by (auto simp: removeItemRow_def)
  next
    case (5 qt lt target s)
    then show ?case using part [of s target] by simp
  next
    case 6
    then show ?case by (auto simp: putItemChild_def)
  next
    case (7 qt lt target s)
    then show ?case using part [of s target] by simp
  next
    case 8
    then show ?case by (auto simp: putItemChild_def insertClone_def)
  next
    case (9 qt lt target s)
    then show ?case using part [of s target] by simp
  next
    case 10
    then show ?case by (auto simp: putItemChild_def appendClone_def)
  }
qed

termination moveItemToTarget
  by (rule moveItemToTarget_calls_wellfounded)

subsection \<open>The rows a reconciliation leaves\<close>

text \<open>
  The rows of the item after \<open>moveItemToTarget\<close> and after \<open>fetchItemToTarget\<close>, by
  recursion on the rows of the item from \<open>itemIndex\<close> on and the rows of the target from
  \<open>targetIndex\<close> on. They are what the loops are proved to compute (lemmas
  \<open>moveItemToTarget_rows\<close> and \<open>fetchItemToTarget_rows\<close>); the properties of the loops
  are then proved on them.
\<close>

fun movedRows ::
    "QtConversions \<Rightarrow> (SymbolInformation \<Rightarrow> SymbolInformation \<Rightarrow> bool) \<Rightarrow>
     'l QStandardItem list \<Rightarrow> 'l QStandardItem list \<Rightarrow> 'l QStandardItem list" where
  "movedRows qt lt xs [] = []"
| "movedRows qt lt [] (y # ys) = moveItemToTarget qt lt (clone y) y # movedRows qt lt [] ys"
| "movedRows qt lt (x # xs) (y # ys) =
     (if lt (symbolInformationFromItem qt x) (symbolInformationFromItem qt y) then
        movedRows qt lt xs (y # ys)
      else if symbolInformationFromItem qt x = symbolInformationFromItem qt y then
        moveItemToTarget qt lt x y # movedRows qt lt xs ys
      else
        moveItemToTarget qt lt (clone y) y # movedRows qt lt (x # xs) ys)"

fun fetchedRows ::
    "QtConversions \<Rightarrow> (SymbolInformation \<Rightarrow> SymbolInformation \<Rightarrow> bool) \<Rightarrow>
     'l QStandardItem list \<Rightarrow> 'l QStandardItem list \<Rightarrow> 'l QStandardItem list" where
  "fetchedRows qt lt [] ys = map clone ys"
| "fetchedRows qt lt (x # xs) [] = x # xs"
| "fetchedRows qt lt (x # xs) (y # ys) =
     (if lt (symbolInformationFromItem qt x) (symbolInformationFromItem qt y) then
        x # fetchedRows qt lt xs (y # ys)
      else if symbolInformationFromItem qt x = symbolInformationFromItem qt y then
        x # fetchedRows qt lt xs ys
      else
        clone y # fetchedRows qt lt (x # xs) ys)"

text \<open>
  The invariant of the loops: the cached row count is the row count of the item, and the
  index is within it. Under it every \<open>child(itemIndex)\<close> the loops read is a row of the
  item.
\<close>

definition loopInv :: "'l LoopState \<Rightarrow> bool" where
  "loopInv s = (itemRows s = rowCount (itemNow s) \<and> itemIndex s \<le> itemRows s)"

subsection \<open>Symbol trees, sorted trees and matching rows\<close>

text \<open>
  The symbol information of an item and of everything below it: what a tree of items
  shows, whatever else its items hold.
\<close>

datatype SymbolTree = SymbolTree (symbolOf: SymbolInformation) (children: "SymbolTree list")

fun symbolTree :: "QtConversions \<Rightarrow> 'l QStandardItem \<Rightarrow> SymbolTree" where
  "symbolTree qt (QStandardItem d rs) =
     SymbolTree (symbolInformationFromItem qt (QStandardItem d rs)) (map (symbolTree qt) rs)"

definition symbolChildren :: "QtConversions \<Rightarrow> 'l QStandardItem \<Rightarrow> SymbolTree list" where
  "symbolChildren qt item = map (symbolTree qt) (rows item)"

text \<open>
  The naive rebuild that the reconciliation is compared with: the children of the item
  are discarded and the children of the target are copied whole.
\<close>

fun deepClone :: "'l QStandardItem \<Rightarrow> 'l QStandardItem" where
  "deepClone (QStandardItem d rs) = QStandardItem d (map deepClone rs)"

definition naiveRebuild :: "'l QStandardItem \<Rightarrow> 'l QStandardItem \<Rightarrow> 'l QStandardItem" where
  "naiveRebuild item target = QStandardItem (data item) (map deepClone (rows target))"

text \<open>
  Sorted trees: at every node, the symbol information of the children increases strictly
  along the rows (each row is below every later row). \<open>sortedRows\<close> is the same for the
  rows of the item itself only.
\<close>

fun sortedSymbols :: "(SymbolInformation \<Rightarrow> SymbolInformation \<Rightarrow> bool) \<Rightarrow> SymbolTree \<Rightarrow> bool" where
  "sortedSymbols lt (SymbolTree i cs) =
     (sorted_wrt lt (map symbolOf cs) \<and> (\<forall>c \<in> set cs. sortedSymbols lt c))"

definition sortedTree ::
    "QtConversions \<Rightarrow> (SymbolInformation \<Rightarrow> SymbolInformation \<Rightarrow> bool) \<Rightarrow> 'l QStandardItem \<Rightarrow> bool" where
  "sortedTree qt lt item = sortedSymbols lt (symbolTree qt item)"

definition sortedRows ::
    "QtConversions \<Rightarrow> (SymbolInformation \<Rightarrow> SymbolInformation \<Rightarrow> bool) \<Rightarrow> 'l QStandardItem \<Rightarrow> bool" where
  "sortedRows qt lt item = sorted_wrt lt (map (symbolInformationFromItem qt) (rows item))"

text \<open>
  The loops compare two rows with \<open>operator<\<close> and \<open>operator==\<close> only, and take a row
  that is neither below nor equal to be above. The rows of an item and of a target are
  comparable when that is so for each row of the one and each row of the other.
\<close>

definition comparableRows ::
    "QtConversions \<Rightarrow> (SymbolInformation \<Rightarrow> SymbolInformation \<Rightarrow> bool) \<Rightarrow>
     'l QStandardItem \<Rightarrow> 'l QStandardItem \<Rightarrow> bool" where
  "comparableRows qt lt item target =
     (\<forall>x \<in> set (rows item). \<forall>y \<in> set (rows target).
        lt (symbolInformationFromItem qt x) (symbolInformationFromItem qt y)
        \<or> symbolInformationFromItem qt x = symbolInformationFromItem qt y
        \<or> lt (symbolInformationFromItem qt y) (symbolInformationFromItem qt x))"

text \<open>
  The row that \<open>moveItemToTarget\<close> leaves for a child of the target: the child of the item
  with the same symbol information, reconciled with it, if there is one; otherwise a clone
  of the child of the target, reconciled with it.
\<close>

definition reconciledChild ::
    "QtConversions \<Rightarrow> (SymbolInformation \<Rightarrow> SymbolInformation \<Rightarrow> bool) \<Rightarrow>
     'l QStandardItem \<Rightarrow> 'l QStandardItem \<Rightarrow> 'l QStandardItem" where
  "reconciledChild qt lt item y =
     (case find (\<lambda>x. symbolInformationFromItem qt x = symbolInformationFromItem qt y)
                (rows item) of
        Some x \<Rightarrow> moveItemToTarget qt lt x y
      | None \<Rightarrow> moveItemToTarget qt lt (clone y) y)"

subsection \<open>Examples\<close>

text \<open>
  An ordering of symbol information by the sort key that \<open>iconTypeSortOrder\<close> gives the
  icon type, then by the name, then by the type. It is irreflexive and transitive. Two
  values whose icon types differ and have the same sort key, with the same name and type,
  are neither equal nor one below the other.
\<close>

definition sortKey :: "(CodeModelIcon \<Rightarrow> int) \<Rightarrow> int \<Rightarrow> int" where
  "sortKey code icon = fst (iconTypeSortOrder code [] icon)"

definition lessBySortKey ::
    "(CodeModelIcon \<Rightarrow> int) \<Rightarrow> SymbolInformation \<Rightarrow> SymbolInformation \<Rightarrow> bool" where
  "lessBySortKey code a b =
     (sortKey code (iconType a) < sortKey code (iconType b)
      \<or> (sortKey code (iconType a) = sortKey code (iconType b)
          \<and> (name a < name b \<or> (name a = name b \<and> type a < type b))))"

text \<open>
  Small trees, written by their icon types: the item 0[1, 3[5]], the target 0[2[4], 3]
  and the item 0[3[5]]. With \<open>exampleIconCode\<close> the icon types 1 and 2 have the same sort
  key: 1 is not in the table, and 2 is the value of \<open>Enum\<close>, at position 1. The children of
  the two items carry a mark under a role of their own, which the children of the target
  do not.
\<close>

definition exampleQt :: QtConversions where
  "exampleQt = \<lparr>number = (\<lambda>n. []), stringToInt = (\<lambda>s. (0, False))\<rparr>"

definition exampleNode :: "int \<Rightarrow> unit QStandardItem list \<Rightarrow> unit QStandardItem" where
  "exampleNode k rs =
     setSymbolInformationToItem (SymbolInformation [] [] k) (QStandardItem (\<lambda>role. Invalid) rs)"

definition exampleMark :: "unit QStandardItem \<Rightarrow> unit QStandardItem" where
  "exampleMark item = setData item (VString ''item'') (OtherRole 0)"

definition markOf :: "unit QStandardItem \<Rightarrow> unit QVariant" where
  "markOf item = data item (OtherRole 0)"

definition exampleItem :: "unit QStandardItem" where
  "exampleItem =
     exampleNode 0 [exampleMark (exampleNode 1 []), exampleMark (exampleNode 3 [exampleNode 5 []])]"

definition exampleTarget :: "unit QStandardItem" where
  "exampleTarget = exampleNode 0 [exampleNode 2 [exampleNode 4 []], exampleNode 3 []]"

definition exampleSubItem :: "unit QStandardItem" where
  "exampleSubItem = exampleNode 0 [exampleMark (exampleNode 3 [exampleNode 5 []])]"

section \<open>QNX environment discovery (qnxutils.cpp)\<close>

text \<open>
  \<open>Utils::EnvironmentItem(var, value)\<close>: the name of a variable and its value.
\<close>

datatype EnvironmentItem = EnvironmentItem string string

datatype ProcessState = NotRunning | Starting | Running

datatype ExitStatus = NormalExit | CrashExit

text \<open>
  What the function observes of the \<open>QProcess\<close> it started: the result of
  \<open>waitForFinished(10000)\<close>, then \<open>state()\<close>, \<open>exitStatus()\<close>, \<open>exitCode()\<close>, and the lines
  that \<open>QTextStream::readLine\<close> returns from its output until \<open>atEnd()\<close>.
\<close>

record Process =
  waitForFinished :: bool
  processState :: ProcessState
  exitStatus :: ExitStatus
  exitCode :: int
  outputLines :: "string list"

text \<open>
  The host the function runs on: the file system (\<open>QFileInfo::exists\<close>), the host
  operating system, the directory for temporary files, \<open>QTemporaryFile::open\<close> (the name of
  the file created from the template, or nothing when it cannot be created), and the
  process started with a program, its arguments and the text of the script file.
\<close>

record QnxHost =
  fileExists :: "string \<Rightarrow> bool"
  isWindowsHost :: bool
  tempPath :: string
  openTemporaryFile :: "string \<Rightarrow> string option"
  startProcess :: "string \<Rightarrow> string list \<Rightarrow> string \<Rightarrow> Process"

definition EVAL_ENV_VARS :: "string list" where
  "EVAL_ENV_VARS =
     [''QNX_TARGET'', ''QNX_HOST'', ''QNX_CONFIGURATION'', ''MAKEFLAGS'', ''LD_LIBRARY_PATH'',
      ''PATH'', ''QDE'', ''CPUVARDIR'', ''PYTHONPATH'']"

text \<open>\<open>linePattern.arg(v)\<close>: every \<open>%1\<close> of the pattern replaced by the variable.\<close>

definition linePattern :: "bool \<Rightarrow> string \<Rightarrow> string" where
  "linePattern isWindows v =
     (if isWindows then ''echo '' @ v @ ''=%'' @ v @ ''%'' else ''echo '' @ v @ ''=$'' @ v)"

definition fileContent :: "bool \<Rightarrow> string \<Rightarrow> string" where
  "fileContent isWindows fileName =
     (if isWindows
      then ''@echo off'' @ [CHR 0x0A] @ ''call '' @ fileName @ [CHR 0x0A]
      else ''#!/bin/bash'' @ [CHR 0x0A] @ ''. '' @ fileName @ [CHR 0x0A])
     @ concat (map (\<lambda>v. linePattern isWindows v @ [CHR 0x0A]) EVAL_ENV_VARS)"

text \<open>\<open>QString::indexOf\<close> of a character: the first position, or -1.\<close>

fun indexOf :: "string \<Rightarrow> char \<Rightarrow> int" where
  "indexOf [] c = - 1"
| "indexOf (x # xs) c =
     (if x = c then 0 else if indexOf xs c < 0 then - 1 else indexOf xs c + 1)"

text \<open>
  \<open>QString::left(n)\<close> and \<open>QString::mid(position)\<close>, called here with \<open>0 \<le> n\<close> and
  \<open>0 \<le> position \<le> size()\<close> only.
\<close>

definition left :: "string \<Rightarrow> int \<Rightarrow> string" where
  "left s n = take (nat n) s"

definition mid :: "string \<Rightarrow> int \<Rightarrow> string" where
  "mid s position = drop (nat position) s"

text \<open>The loop over the output of the process.\<close>

fun parseOutput :: "string list \<Rightarrow> EnvironmentItem list \<Rightarrow> EnvironmentItem list" where
  "parseOutput [] items = items"
| "parseOutput (line # str) items =
     (let equalIndex = indexOf line (CHR ''='') in
      if equalIndex < 0 then parseOutput str items
      else
        let var = left line equalIndex;
            val = mid line (equalIndex + 1)
        in parseOutput str (items @ [EnvironmentItem var val]))"

definition tmpFileTemplate :: "QnxHost \<Rightarrow> string" where
  "tmpFileTemplate host =
     tempPath host @ ''/'' @ ''bbndk-env-eval-XXXXXX''
       @ (if isWindowsHost host then ''.bat'' else ''.sh'')"

text \<open>The wrapper process, started on the script file that was written.\<close>

definition wrapperProcess :: "QnxHost \<Rightarrow> string \<Rightarrow> string \<Rightarrow> Process" where
  "wrapperProcess host fileName tmpFileName =
     (if isWindowsHost host
      then startProcess host ''cmd.exe'' [''/C'', tmpFileName] (fileContent True fileName)
      else startProcess host ''/bin/bash'' [tmpFileName] (fileContent False fileName))"

definition qnxEnvironmentFromEnvFile :: "QnxHost \<Rightarrow> string \<Rightarrow> EnvironmentItem list" where
  "qnxEnvironmentFromEnvFile host fileName =
     (let items = [] in
      if \<not> fileExists host fileName then items
      else
        case openTemporaryFile host (tmpFileTemplate host) of
          None \<Rightarrow> items
        | Some tmpFileName \<Rightarrow>
            let process = wrapperProcess host fileName tmpFileName;
                waitResult = (waitForFinished process \<or> processState process = NotRunning)
            in if \<not> waitResult then items
               else if exitStatus process \<noteq> NormalExit \<or> exitCode process \<noteq> 0 then items
               else parseOutput (outputLines process) items)"

text \<open>An example host: the wrapper runs and prints three lines.\<close>

definition exampleProcess :: Process where
  "exampleProcess =
     \<lparr>waitForFinished = True, processState = NotRunning, exitStatus = NormalExit, exitCode = 0,
      outputLines = [''QNX_HOST=/opt/qnx'', ''MAKEFLAGS'', ''QDE=a=b'']\<rparr>"

definition exampleHost :: QnxHost where
  "exampleHost =
     \<lparr>fileExists = (\<lambda>f. f = ''/opt/env.sh''), isWindowsHost = False, tempPath = ''/tmp'',
      openTemporaryFile = (\<lambda>t. Some ''/tmp/bbndk-env-eval-a1b2c3.sh''),
      startProcess = (\<lambda>program arguments script. exampleProcess)\<rparr>"

section \<open>The qmldump helper (qmldumptool.cpp)\<close>

text \<open>What the function reads of a \<open>QtVersion\<close>.\<close>

record QtVersion =
  uniqueId :: int
  qtInstallData :: string

text \<open>
  A \<open>QmlDumpBuildTask\<close>: whether its build has failed, and the projects to update when
  it is done.
\<close>

record 'p QmlDumpBuildTask =
  m_failed :: bool
  m_projectsToUpdate :: "'p set"

text \<open>
  What the function reads of its surroundings: the Qt version that the static function
  \<open>qtVersionForProject\<close> finds for a project (none for a null pointer), the tool that
  \<open>toolByInstallData\<close> finds under an installation directory (empty when there is none),
  and \<open>QFileInfo::exists\<close> and \<open>QFileInfo::isFile\<close>.
\<close>

record 'p QmlDumpEnv =
  qtVersionForProject :: "'p \<Rightarrow> QtVersion option"
  toolByInstallData :: "string \<Rightarrow> string"
  qfileExists :: "string \<Rightarrow> bool"
  qfileIsFile :: "string \<Rightarrow> bool"

datatype Warning = DoesNotExist string | NotAFile string

text \<open>
  What the function changes: the global table \<open>qmlDumpBuilds\<close> of build tasks by version,
  the build tasks handed to \<open>QtConcurrent::run\<close> and the progress manager (by version), and
  the warnings printed.
\<close>

record 'p QmlDumpState =
  qmlDumpBuilds :: "int \<Rightarrow> 'p QmlDumpBuildTask option"
  startedBuilds :: "int list"
  warnings :: "Warning list"

definition toolForProject :: "'p QmlDumpEnv \<Rightarrow> 'p \<Rightarrow> string" where
  "toolForProject env project =
     (case qtVersionForProject env project of
        Some version \<Rightarrow>
          (let qtInstallData = qtInstallData version;
               toolPath = toolByInstallData env qtInstallData
           in toolPath)
      | None \<Rightarrow> [])"

text \<open>\<open>updateProjectWhenDone(project)\<close> on the task registered for a version.\<close>

definition updateProjectWhenDone ::
    "int \<Rightarrow> 'p QmlDumpBuildTask \<Rightarrow> 'p \<Rightarrow> 'p QmlDumpState \<Rightarrow> 'p QmlDumpState" where
  "updateProjectWhenDone versionId task project st =
     st\<lparr>qmlDumpBuilds := (qmlDumpBuilds st)
           (versionId \<mapsto> task\<lparr>m_projectsToUpdate := insert project (m_projectsToUpdate task)\<rparr>)\<rparr>"

text \<open>\<open>new QmlDumpBuildTask(version)\<close>: the constructor registers the task in the table.\<close>

definition newQmlDumpBuildTask :: "QtVersion \<Rightarrow> 'p QmlDumpState \<Rightarrow> 'p QmlDumpBuildTask \<times> 'p QmlDumpState" where
  "newQmlDumpBuildTask version st =
     (let task = \<lparr>m_failed = False, m_projectsToUpdate = {}\<rparr>
      in (task, st\<lparr>qmlDumpBuilds := (qmlDumpBuilds st)(uniqueId version \<mapsto> task)\<rparr>))"

text \<open>
  The last part of \<open>qmlDumpPath\<close>: a path that is not empty is cleared, with a warning,
  unless it is the path of an existing file.
\<close>

definition checkQmlDumpFile ::
    "'p QmlDumpEnv \<Rightarrow> 'p QmlDumpState \<Rightarrow> string \<Rightarrow> string \<times> 'p QmlDumpState" where
  "checkQmlDumpFile env st path =
     (if path \<noteq> [] then
        if \<not> qfileExists env path then
          ([], st\<lparr>warnings := warnings st @ [DoesNotExist path]\<rparr>)
        else if \<not> qfileIsFile env path then
          ([], st\<lparr>warnings := warnings st @ [NotAFile path]\<rparr>)
        else (path, st)
      else (path, st))"

text \<open>
  \<open>qmlDumpPath\<close>: the path returned and the state left. The first branch is the one
  taken when there is a version and the path is empty.
\<close>

definition qmlDumpPath ::
    "'p QmlDumpEnv \<Rightarrow> 'p QmlDumpState \<Rightarrow> 'p \<Rightarrow> string \<times> 'p QmlDumpState" where
  "qmlDumpPath env st project =
     (let path = toolForProject env project;
          version = qtVersionForProject env project
      in case version of
           Some v \<Rightarrow>
             if path = [] then
               (case qmlDumpBuilds st (uniqueId v) of
                  Some qmlDumpBuildTask \<Rightarrow>
                    if \<not> m_failed qmlDumpBuildTask
                    then (path, updateProjectWhenDone (uniqueId v) qmlDumpBuildTask project st)
                    else (path, st)
                | None \<Rightarrow>
                    (let (buildTask, st) = newQmlDumpBuildTask v st;
                         st = updateProjectWhenDone (uniqueId v) buildTask project st;
                         st = st\<lparr>startedBuilds := startedBuilds st @ [uniqueId v]\<rparr>
                     in (path, st)))
             else checkQmlDumpFile env st path
         | None \<Rightarrow> checkQmlDumpFile env st path)"

text \<open>An example: one project with a version whose tool is found, one whose tool is missing.\<close>

definition exampleQmlDumpEnv :: "int QmlDumpEnv" where
  "exampleQmlDumpEnv =
     \<lparr>qtVersionForProject =
        (\<lambda>p. if p = 0 then Some \<lparr>uniqueId = 1, qtInstallData = ''/qt/a''\<rparr>
             else if p = 1 then Some \<lparr>uniqueId = 2, qtInstallData = ''/qt/b''\<rparr>
             else if p = 2 then Some \<lparr>uniqueId = 3, qtInstallData = ''/qt/c''\<rparr>
             else None),
      toolByInstallData =
        (\<lambda>d. if d = ''/qt/a'' then ''/qt/a/qmldump''
             else if d = ''/qt/c'' then ''/qt/c/qmldump'' else []),
      qfileExists = (\<lambda>f. f = ''/qt/a/qmldump''),
      qfileIsFile = (\<lambda>f. f = ''/qt/a/qmldump'')\<rparr>"

definition exampleQmlDumpState :: "int QmlDumpState" where
  "exampleQmlDumpState = \<lparr>qmlDumpBuilds = (\<lambda>v. None), startedBuilds = [], warnings = []\<rparr>"

section \<open>Properties\<close>

subsection \<open>The loops compute the reconciled rows\<close>

declare fetchMergeLoop.simps [simp del] fetchAppendLoop.simps [simp del]
  removeLoop.simps [simp del] moveItemToTarget.simps [simp del]
  moveMergeLoop.simps [simp del] moveAppendLoop.simps [simp del]

text \<open>
  The loops read rows of the item only: the invariant holds at the start, every step of
  a loop keeps it, and under it the child read at \<open>itemIndex\<close> is a row of the item (the
  row read after an insertion is the clone just inserted).
\<close>

lemma loopInv_start:
  "loopInv \<lparr>itemNow = item, itemIndex = 0, targetIndex = 0, itemRows = rowCount item\<rparr>"
  by (simp add: loopInv_def)

lemma loopInv_read:
  "loopInv s \<Longrightarrow> itemIndex s < itemRows s \<Longrightarrow> itemChild s \<in> set (rows (itemNow s))"
  by (simp add: loopInv_def itemChild_def child_def rowCount_def)

lemma loopInv_remove:
  "loopInv s \<Longrightarrow> itemIndex s < itemRows s \<Longrightarrow>
   loopInv ((removeItemRow s)\<lparr>itemRows := itemRows s - 1\<rparr>)"
  by (auto simp: loopInv_def removeItemRow_def removeRow_def rowCount_def)

lemma loopInv_skip:
  "loopInv s \<Longrightarrow> itemIndex s < itemRows s \<Longrightarrow>
   loopInv (s\<lparr>itemIndex := itemIndex s + 1\<rparr>)
   \<and> loopInv (s\<lparr>itemIndex := itemIndex s + 1, targetIndex := t\<rparr>)"
  by (auto simp: loopInv_def)

lemma loopInv_keep:
  "loopInv s \<Longrightarrow> itemIndex s < itemRows s \<Longrightarrow>
   loopInv ((putItemChild s c)\<lparr>itemIndex := itemIndex s + 1, targetIndex := t\<rparr>)"
  by (auto simp: loopInv_def putItemChild_def putChild_def rowCount_def)

lemma loopInv_insert:
  "loopInv s \<Longrightarrow>
   itemChild (insertClone target s) = clone (targetChild target s)
   \<and> loopInv ((insertClone target s)
        \<lparr>itemIndex := itemIndex s + 1, itemRows := itemRows s + 1, targetIndex := t\<rparr>)
   \<and> loopInv ((putItemChild (insertClone target s) c)
        \<lparr>itemIndex := itemIndex s + 1, itemRows := itemRows s + 1, targetIndex := t\<rparr>)"
  by (auto simp: loopInv_def putItemChild_def putChild_def insertClone_def insertRow_def
      rowCount_def itemChild_def child_def nth_append)

lemma loopInv_append:
  "loopInv s \<Longrightarrow> itemIndex s = itemRows s \<Longrightarrow>
   itemChild (appendClone target s) = clone (targetChild target s)
   \<and> loopInv ((putItemChild (appendClone target s) c)
        \<lparr>itemIndex := itemIndex s + 1, itemRows := itemRows s + 1, targetIndex := t\<rparr>)"
  by (auto simp: loopInv_def putItemChild_def putChild_def appendClone_def appendRow_def
      insertRow_def rowCount_def itemChild_def child_def)

lemma removeLoop_rows:
  "loopInv s \<Longrightarrow>
   rows (itemNow (removeLoop s)) = take (itemIndex s) (rows (itemNow s))
   \<and> data (itemNow (removeLoop s)) = data (itemNow s)"
proof (induction "itemRows s - itemIndex s" arbitrary: s)
  case 0
  then show ?case by (simp add: removeLoop.simps [of s] loopInv_def rowCount_def)
next
  case (Suc n)
  let ?s1 = "(removeItemRow s)\<lparr>itemRows := itemRows s - 1\<rparr>"
  have lt: "itemIndex s < itemRows s" using Suc.hyps(2) by simp
  have inv1: "loopInv ?s1"
    using Suc.prems lt by (simp add: loopInv_def removeItemRow_def removeRow_def rowCount_def)
  have m: "n = itemRows ?s1 - itemIndex ?s1"
    using Suc.hyps(2) by (simp add: removeItemRow_def)
  have "removeLoop s = removeLoop ?s1"
    using lt by (simp add: removeLoop.simps [of s])
  then show ?case
    using Suc.hyps(1) [OF m inv1] Suc.prems lt
    by (simp add: loopInv_def removeItemRow_def removeRow_def rowCount_def)
qed

lemma movedRows_Nil: "movedRows qt lt [] ys = map (\<lambda>y. moveItemToTarget qt lt (clone y) y) ys"
  by (induction ys) auto

lemma moveAppendLoop_done:
  "rowCount target \<le> targetIndex s \<Longrightarrow> moveAppendLoop qt lt target s = s"
  by (simp add: moveAppendLoop.simps [of qt lt target s])

lemma moveAppendLoop_rows:
  assumes "itemRows s = rowCount (itemNow s)" and "itemIndex s = itemRows s"
  shows "rows (itemNow (moveAppendLoop qt lt target s)) =
           rows (itemNow s) @ movedRows qt lt [] (drop (targetIndex s) (rows target))
       \<and> data (itemNow (moveAppendLoop qt lt target s)) = data (itemNow s)
       \<and> itemRows (moveAppendLoop qt lt target s) = rowCount (itemNow (moveAppendLoop qt lt target s))
       \<and> itemIndex (moveAppendLoop qt lt target s) = itemRows (moveAppendLoop qt lt target s)"
  using assms
proof (induction "rowCount target - targetIndex s" arbitrary: s)
  case 0
  then have "rowCount target \<le> targetIndex s" by simp
  then show ?case using 0 by (simp add: moveAppendLoop_done rowCount_def)
next
  case (Suc n)
  let ?a = "appendClone target s"
  let ?y = "targetChild target s"
  let ?p = "putItemChild ?a (moveItemToTarget qt lt (itemChild ?a) ?y)"
  let ?s1 = "?p\<lparr>itemIndex := itemIndex s + 1, itemRows := itemRows s + 1,
                targetIndex := targetIndex s + 1\<rparr>"
  have lt: "targetIndex s < rowCount target" using Suc.hyps(2) by simp
  have step: "moveAppendLoop qt lt target s = moveAppendLoop qt lt target ?s1"
    using lt by (simp add: moveAppendLoop.simps [of qt lt target s])
  have rowsP: "rows (itemNow ?p) = rows (itemNow s) @ [moveItemToTarget qt lt (clone ?y) ?y]"
    using Suc.prems
    by (simp add: itemChild_def child_def putItemChild_def putChild_def appendClone_def
        appendRow_def insertRow_def rowCount_def)
  have dataP: "data (itemNow ?p) = data (itemNow s)"
    by (simp add: putItemChild_def putChild_def appendClone_def appendRow_def insertRow_def)
  have m: "n = rowCount target - targetIndex ?s1" using Suc.hyps(2) by simp
  have p1: "itemRows ?s1 = rowCount (itemNow ?s1)"
    using Suc.prems by (simp add: rowCount_def rowsP)
  have p2: "itemIndex ?s1 = itemRows ?s1" using Suc.prems by simp
  have d: "drop (targetIndex s) (rows target) = ?y # drop (Suc (targetIndex s)) (rows target)"
    using lt by (simp add: targetChild_def child_def rowCount_def Cons_nth_drop_Suc)
  show ?case
    using Suc.hyps(1) [OF m p1 p2]
    unfolding step d by (simp add: rowsP dataP)
qed

lemma moveMergeLoop_rows:
  assumes "loopInv s"
  shows "rows (itemNow (removeLoop (moveAppendLoop qt lt target (moveMergeLoop qt lt target s)))) =
           take (itemIndex s) (rows (itemNow s)) @
           movedRows qt lt (drop (itemIndex s) (rows (itemNow s))) (drop (targetIndex s) (rows target))
       \<and> data (itemNow (removeLoop (moveAppendLoop qt lt target (moveMergeLoop qt lt target s)))) =
           data (itemNow s)"
  using assms
proof (induction "(itemRows s - itemIndex s) + (rowCount target - targetIndex s)"
    arbitrary: s rule: less_induct)
  case less
  let ?rs = "rows (itemNow s)"
  let ?ts = "rows target"
  let ?i = "itemIndex s"
  let ?t = "targetIndex s"
  have len: "itemRows s = length ?rs" and le: "?i \<le> length ?rs"
    using less.prems by (simp_all add: loopInv_def rowCount_def)
  show ?case
  proof (cases "itemIndex s < itemRows s \<and> targetIndex s < rowCount target")
    case False
    have stop: "moveMergeLoop qt lt target s = s"
      by (subst moveMergeLoop.simps) (simp only: False if_False)
    show ?thesis
    proof (cases "targetIndex s < rowCount target")
      case True
      then have full: "itemIndex s = itemRows s" using False le len by simp
      let ?a = "moveAppendLoop qt lt target s"
      have app: "rows (itemNow ?a) = ?rs @ movedRows qt lt [] (drop ?t ?ts)"
          "data (itemNow ?a) = data (itemNow s)"
          "itemRows ?a = rowCount (itemNow ?a)" "itemIndex ?a = itemRows ?a"
        using moveAppendLoop_rows [of s qt lt target] full len by (simp_all add: rowCount_def)
      have inv: "loopInv ?a" using app by (simp add: loopInv_def)
      show ?thesis
        using removeLoop_rows [OF inv] app full len
        unfolding stop by (simp add: rowCount_def)
    next
      case noT: False
      then have same: "moveAppendLoop qt lt target s = s"
        by (simp add: moveAppendLoop_done)
      have nil: "drop ?t ?ts = []" using noT by (simp add: rowCount_def)
      show ?thesis
        using removeLoop_rows [OF less.prems]
        unfolding stop same nil by simp
    qed
  next
    case True
    then have i: "?i < length ?rs" and t: "?t < length ?ts"
      using len by (simp_all add: rowCount_def)
    let ?x = "?rs ! ?i"
    let ?y = "?ts ! ?t"
    have dx: "drop ?i ?rs = ?x # drop (Suc ?i) ?rs" using i by (simp add: Cons_nth_drop_Suc)
    have dy: "drop ?t ?ts = ?y # drop (Suc ?t) ?ts" using t by (simp add: Cons_nth_drop_Suc)
    have ic: "itemChild s = ?x" by (simp add: itemChild_def child_def)
    have tc: "targetChild target s = ?y" by (simp add: targetChild_def child_def)
    have ii: "itemInf qt s = symbolInformationFromItem qt ?x" by (simp add: itemInf_def ic)
    have ti: "targetInf qt target s = symbolInformationFromItem qt ?y" by (simp add: targetInf_def tc)
    consider (rm) "lt (itemInf qt s) (targetInf qt target s)"
      | (eq) "\<not> lt (itemInf qt s) (targetInf qt target s)" "itemInf qt s = targetInf qt target s"
      | (ins) "\<not> lt (itemInf qt s) (targetInf qt target s)" "itemInf qt s \<noteq> targetInf qt target s"
      by blast
    then show ?thesis
    proof cases
      case rm
      let ?p = "removeItemRow s"
      let ?s1 = "?p\<lparr>itemRows := itemRows s - 1\<rparr>"
      have step: "moveMergeLoop qt lt target s = moveMergeLoop qt lt target ?s1"
        by (subst moveMergeLoop.simps) (simp only: True rm if_True simp_thms)
      have rowsP: "rows (itemNow ?p) = take ?i ?rs @ drop (Suc ?i) ?rs"
        using i by (simp add: removeItemRow_def removeRow_def rowCount_def)
      have dataP: "data (itemNow ?p) = data (itemNow s)"
        by (simp add: removeItemRow_def removeRow_def)
      have idx: "itemIndex ?p = ?i" "targetIndex ?p = ?t"
        by (simp_all add: removeItemRow_def)
      have inv1: "loopInv ?s1"
        using i len by (simp add: loopInv_def rowCount_def rowsP idx)
      have m: "(itemRows ?s1 - itemIndex ?s1) + (rowCount target - targetIndex ?s1)
             < (itemRows s - itemIndex s) + (rowCount target - targetIndex s)"
        using True by (auto simp: idx)
      have tk: "take ?i (take ?i ?rs @ drop (Suc ?i) ?rs) = take ?i ?rs"
        using i by simp
      have dr: "drop ?i (take ?i ?rs @ drop (Suc ?i) ?rs) = drop (Suc ?i) ?rs"
        using i by simp
      have mv: "movedRows qt lt (drop ?i ?rs) (drop ?t ?ts) =
                movedRows qt lt (drop (Suc ?i) ?rs) (drop ?t ?ts)"
        using rm by (simp add: dx dy ii ti)
      show ?thesis
        using less.hyps [OF m inv1] le
        by (simp only: step mv) (simp add: rowsP dataP idx tk dr min_absorb2)
    next
      case eq
      let ?m = "moveItemToTarget qt lt ?x ?y"
      let ?p = "putItemChild s (moveItemToTarget qt lt (itemChild s) (targetChild target s))"
      let ?s1 = "?p\<lparr>itemIndex := itemIndex s + 1, targetIndex := targetIndex s + 1\<rparr>"
      have step: "moveMergeLoop qt lt target s = moveMergeLoop qt lt target ?s1"
        by (subst moveMergeLoop.simps) (use True eq in simp)
      have rowsP: "rows (itemNow ?p) = ?rs[?i := ?m]"
        by (simp add: putItemChild_def putChild_def ic tc)
      have dataP: "data (itemNow ?p) = data (itemNow s)"
        by (simp add: putItemChild_def putChild_def)
      have idx: "itemRows ?p = itemRows s"
        by (simp_all add: putItemChild_def)
      have inv1: "loopInv ?s1"
        using i len by (simp add: loopInv_def rowCount_def rowsP idx)
      have m: "(itemRows ?s1 - itemIndex ?s1) + (rowCount target - targetIndex ?s1)
             < (itemRows s - itemIndex s) + (rowCount target - targetIndex s)"
        using True by (auto simp: idx)
      have tk: "take (Suc ?i) (?rs[?i := ?m]) = take ?i ?rs @ [?m]"
        using i by (simp add: take_Suc_conv_app_nth)
      have dr: "drop (Suc ?i) (?rs[?i := ?m]) = drop (Suc ?i) ?rs"
        by simp
      have mv: "movedRows qt lt (drop ?i ?rs) (drop ?t ?ts) =
                ?m # movedRows qt lt (drop (Suc ?i) ?rs) (drop (Suc ?t) ?ts)"
        using eq by (simp add: dx dy ii ti)
      show ?thesis
        using less.hyps [OF m inv1] le
        by (simp only: step mv) (simp add: rowsP dataP idx tk dr min_absorb2)
    next
      case ins
      let ?m = "moveItemToTarget qt lt (clone ?y) ?y"
      let ?c = "insertClone target s"
      let ?p = "putItemChild ?c (moveItemToTarget qt lt (itemChild ?c) (targetChild target s))"
      let ?s1 = "?p\<lparr>itemIndex := itemIndex s + 1, itemRows := itemRows s + 1,
                    targetIndex := targetIndex s + 1\<rparr>"
      have step: "moveMergeLoop qt lt target s = moveMergeLoop qt lt target ?s1"
        by (subst moveMergeLoop.simps) (use True ins in simp)
      have rowsC: "rows (itemNow ?c) = take ?i ?rs @ clone ?y # drop ?i ?rs"
        using le by (simp add: insertClone_def insertRow_def rowCount_def tc)
      have idxC: "itemIndex ?c = ?i" by (simp add: insertClone_def)
      have icC: "itemChild ?c = clone ?y"
        using le by (simp add: itemChild_def child_def rowsC idxC nth_append)
      have rowsP: "rows (itemNow ?p) = take ?i ?rs @ ?m # drop ?i ?rs"
        using le by (simp add: putItemChild_def putChild_def icC rowsC idxC tc list_update_append)
      have dataP: "data (itemNow ?p) = data (itemNow s)"
        by (simp add: putItemChild_def putChild_def insertClone_def insertRow_def)
      have inv1: "loopInv ?s1"
        using i len by (simp add: loopInv_def rowCount_def rowsP)
      have m: "(itemRows ?s1 - itemIndex ?s1) + (rowCount target - targetIndex ?s1)
             < (itemRows s - itemIndex s) + (rowCount target - targetIndex s)"
        using True by auto
      have tk: "take (Suc ?i) (take ?i ?rs @ ?m # drop ?i ?rs) = take ?i ?rs @ [?m]"
        using le by simp
      have dr: "drop (Suc ?i) (take ?i ?rs @ ?m # drop ?i ?rs) = drop ?i ?rs"
        using le by simp
      have mv: "movedRows qt lt (drop ?i ?rs) (drop ?t ?ts) =
                ?m # movedRows qt lt (drop ?i ?rs) (drop (Suc ?t) ?ts)"
        using ins by (simp add: dx dy ii ti)
      show ?thesis
        using less.hyps [OF m inv1] le
        by (simp only: step mv) (simp add: rowsP dataP tk dr min_absorb2)
    qed
  qed
qed

lemma moveItemToTarget_rows:
  "rows (moveItemToTarget qt lt item target) = movedRows qt lt (rows item) (rows target)"
  using moveMergeLoop_rows
    [of "\<lparr>itemNow = item, itemIndex = 0, targetIndex = 0, itemRows = rowCount item\<rparr>" qt lt target]
  by (simp add: moveItemToTarget.simps loopInv_def)

lemma moveItemToTarget_data:
  "data (moveItemToTarget qt lt item target) = data item"
  using moveMergeLoop_rows
    [of "\<lparr>itemNow = item, itemIndex = 0, targetIndex = 0, itemRows = rowCount item\<rparr>" qt lt target]
  by (simp add: moveItemToTarget.simps loopInv_def)

lemma fetchedRows_Nil2: "fetchedRows qt lt xs [] = xs"
  by (cases xs) auto

lemma fetchAppendLoop_rows:
  "rows (itemNow (fetchAppendLoop target s)) =
     rows (itemNow s) @ map clone (drop (targetIndex s) (rows target))
   \<and> data (itemNow (fetchAppendLoop target s)) = data (itemNow s)"
proof (induction "rowCount target - targetIndex s" arbitrary: s)
  case 0
  then have "\<not> targetIndex s < rowCount target" by simp
  then have "fetchAppendLoop target s = s"
    by (subst fetchAppendLoop.simps) simp
  then show ?case using 0 by (simp add: rowCount_def)
next
  case (Suc n)
  let ?p = "appendClone target s"
  let ?s1 = "?p\<lparr>targetIndex := targetIndex s + 1\<rparr>"
  have lt: "targetIndex s < rowCount target" using Suc.hyps(2) by simp
  have step: "fetchAppendLoop target s = fetchAppendLoop target ?s1"
    by (subst fetchAppendLoop.simps) (use lt in simp)
  have rowsP: "rows (itemNow ?p) = rows (itemNow s) @ [clone (rows target ! targetIndex s)]"
    by (simp add: appendClone_def appendRow_def insertRow_def rowCount_def targetChild_def child_def)
  have dataP: "data (itemNow ?p) = data (itemNow s)"
    by (simp add: appendClone_def appendRow_def insertRow_def)
  have m: "n = rowCount target - targetIndex ?s1" using Suc.hyps(2) by simp
  have d: "drop (targetIndex s) (rows target) =
           rows target ! targetIndex s # drop (Suc (targetIndex s)) (rows target)"
    using lt by (simp add: rowCount_def Cons_nth_drop_Suc)
  show ?case
    using Suc.hyps(1) [OF m]
    by (simp only: step d) (simp add: rowsP dataP)
qed

lemma fetchMergeLoop_rows:
  assumes "loopInv s"
  shows "rows (itemNow (fetchAppendLoop target (fetchMergeLoop qt lt target s))) =
           take (itemIndex s) (rows (itemNow s)) @
           fetchedRows qt lt (drop (itemIndex s) (rows (itemNow s))) (drop (targetIndex s) (rows target))
       \<and> data (itemNow (fetchAppendLoop target (fetchMergeLoop qt lt target s))) =
           data (itemNow s)"
  using assms
proof (induction "(itemRows s - itemIndex s) + (rowCount target - targetIndex s)"
    arbitrary: s rule: less_induct)
  case less
  let ?rs = "rows (itemNow s)"
  let ?ts = "rows target"
  let ?i = "itemIndex s"
  let ?t = "targetIndex s"
  have len: "itemRows s = length ?rs" and le: "?i \<le> length ?rs"
    using less.prems by (simp_all add: loopInv_def rowCount_def)
  show ?case
  proof (cases "itemIndex s < itemRows s \<and> targetIndex s < rowCount target")
    case False
    have stop: "fetchMergeLoop qt lt target s = s"
      by (subst fetchMergeLoop.simps) (simp only: False if_False)
    show ?thesis
    proof (cases "targetIndex s < rowCount target")
      case True
      then have full: "?i = length ?rs" using False le len by simp
      show ?thesis
        using fetchAppendLoop_rows [of target s] full
        by (simp only: stop) simp
    next
      case noT: False
      then have nil: "drop ?t ?ts = []" by (simp add: rowCount_def)
      show ?thesis
        using fetchAppendLoop_rows [of target s]
        by (simp only: stop nil) (simp add: fetchedRows_Nil2)
    qed
  next
    case True
    then have i: "?i < length ?rs" and t: "?t < length ?ts"
      using len by (simp_all add: rowCount_def)
    let ?x = "?rs ! ?i"
    let ?y = "?ts ! ?t"
    have dx: "drop ?i ?rs = ?x # drop (Suc ?i) ?rs" using i by (simp add: Cons_nth_drop_Suc)
    have dy: "drop ?t ?ts = ?y # drop (Suc ?t) ?ts" using t by (simp add: Cons_nth_drop_Suc)
    have tc: "targetChild target s = ?y" by (simp add: targetChild_def child_def)
    have ii: "itemInf qt s = symbolInformationFromItem qt ?x"
      by (simp add: itemInf_def itemChild_def child_def)
    have ti: "targetInf qt target s = symbolInformationFromItem qt ?y"
      by (simp add: targetInf_def tc)
    have tkS: "take (Suc ?i) ?rs = take ?i ?rs @ [?x]"
      using i by (simp add: take_Suc_conv_app_nth)
    consider (keep) "lt (itemInf qt s) (targetInf qt target s)"
      | (eq) "\<not> lt (itemInf qt s) (targetInf qt target s)" "itemInf qt s = targetInf qt target s"
      | (ins) "\<not> lt (itemInf qt s) (targetInf qt target s)" "itemInf qt s \<noteq> targetInf qt target s"
      by blast
    then show ?thesis
    proof cases
      case keep
      let ?s1 = "s\<lparr>itemIndex := itemIndex s + 1\<rparr>"
      have step: "fetchMergeLoop qt lt target s = fetchMergeLoop qt lt target ?s1"
        by (subst fetchMergeLoop.simps) (use True keep in simp)
      have inv1: "loopInv ?s1"
        using i len by (simp add: loopInv_def rowCount_def)
      have m: "(itemRows ?s1 - itemIndex ?s1) + (rowCount target - targetIndex ?s1)
             < (itemRows s - itemIndex s) + (rowCount target - targetIndex s)"
        using True by auto
      have mv: "fetchedRows qt lt (drop ?i ?rs) (drop ?t ?ts) =
                ?x # fetchedRows qt lt (drop (Suc ?i) ?rs) (drop ?t ?ts)"
        using keep by (simp add: dx dy ii ti)
      show ?thesis
        using less.hyps [OF m inv1]
        by (simp only: step mv) (simp add: tkS)
    next
      case eq
      let ?s1 = "s\<lparr>itemIndex := itemIndex s + 1, targetIndex := targetIndex s + 1\<rparr>"
      have step: "fetchMergeLoop qt lt target s = fetchMergeLoop qt lt target ?s1"
        by (subst fetchMergeLoop.simps) (use True eq in simp)
      have inv1: "loopInv ?s1"
        using i len by (simp add: loopInv_def rowCount_def)
      have m: "(itemRows ?s1 - itemIndex ?s1) + (rowCount target - targetIndex ?s1)
             < (itemRows s - itemIndex s) + (rowCount target - targetIndex s)"
        using True by auto
      have mv: "fetchedRows qt lt (drop ?i ?rs) (drop ?t ?ts) =
                ?x # fetchedRows qt lt (drop (Suc ?i) ?rs) (drop (Suc ?t) ?ts)"
        using eq by (simp add: dx dy ii ti)
      show ?thesis
        using less.hyps [OF m inv1]
        by (simp only: step mv) (simp add: tkS)
    next
      case ins
      let ?p = "insertClone target s"
      let ?s1 = "?p\<lparr>itemIndex := itemIndex s + 1, itemRows := itemRows s + 1,
                    targetIndex := targetIndex s + 1\<rparr>"
      have step: "fetchMergeLoop qt lt target s = fetchMergeLoop qt lt target ?s1"
        by (subst fetchMergeLoop.simps) (use True ins in simp)
      have rowsP: "rows (itemNow ?p) = take ?i ?rs @ clone ?y # drop ?i ?rs"
        using le by (simp add: insertClone_def insertRow_def rowCount_def tc)
      have dataP: "data (itemNow ?p) = data (itemNow s)"
        by (simp add: insertClone_def insertRow_def)
      have inv1: "loopInv ?s1"
        using i len by (simp add: loopInv_def rowCount_def rowsP)
      have m: "(itemRows ?s1 - itemIndex ?s1) + (rowCount target - targetIndex ?s1)
             < (itemRows s - itemIndex s) + (rowCount target - targetIndex s)"
        using True by auto
      have mv: "fetchedRows qt lt (drop ?i ?rs) (drop ?t ?ts) =
                clone ?y # fetchedRows qt lt (drop ?i ?rs) (drop (Suc ?t) ?ts)"
        using ins by (simp add: dx dy ii ti)
      show ?thesis
        using less.hyps [OF m inv1] le
        by (simp only: step mv) (simp add: rowsP dataP min_absorb2)
    qed
  qed
qed

lemma fetchItemToTarget_rows:
  "rows (fetchItemToTarget qt lt item target) = fetchedRows qt lt (rows item) (rows target)"
  using fetchMergeLoop_rows
    [of "\<lparr>itemNow = item, itemIndex = 0, targetIndex = 0, itemRows = rowCount item\<rparr>" target qt lt]
  by (simp add: fetchItemToTarget_def loopInv_def)

lemma fetchItemToTarget_data:
  "data (fetchItemToTarget qt lt item target) = data item"
  using fetchMergeLoop_rows
    [of "\<lparr>itemNow = item, itemIndex = 0, targetIndex = 0, itemRows = rowCount item\<rparr>" target qt lt]
  by (simp add: fetchItemToTarget_def loopInv_def)

subsection \<open>Reconciliation: helper facts\<close>

lemma symbolInformation_data:
  "data a = data b \<Longrightarrow> symbolInformationFromItem qt a = symbolInformationFromItem qt b"
  by (simp add: symbolInformationFromItem_def)

lemma symbolInformation_clone [simp]:
  "symbolInformationFromItem qt (clone y) = symbolInformationFromItem qt y"
  by (rule symbolInformation_data) (simp add: clone_def)

lemma symbolInformation_move [simp]:
  "symbolInformationFromItem qt (moveItemToTarget qt' lt x y) = symbolInformationFromItem qt x"
  by (rule symbolInformation_data) (simp add: moveItemToTarget_data)

lemma symbolTree_unfold:
  "symbolTree qt a = SymbolTree (symbolInformationFromItem qt a) (symbolChildren qt a)"
  by (cases a) (simp add: symbolChildren_def)

lemma symbolTree_deepClone: "symbolTree qt (deepClone a) = symbolTree qt a"
proof (induction a)
  case (QStandardItem d rs)
  have "symbolInformationFromItem qt (QStandardItem d (map deepClone rs)) =
        symbolInformationFromItem qt (QStandardItem d rs)"
    by (rule symbolInformation_data) simp
  then show ?case using QStandardItem by (simp cong: map_cong)
qed

lemma movedRows_symbols:
  "(\<And>x y. y \<in> set ys \<Longrightarrow> symbolChildren qt (moveItemToTarget qt lt x y) = symbolChildren qt y) \<Longrightarrow>
   map (symbolTree qt) (movedRows qt lt xs ys) = map (symbolTree qt) ys"
proof (induction qt lt xs ys rule: movedRows.induct)
  case (1 qt lt xs)
  then show ?case by simp
next
  case (2 qt lt y ys)
  then show ?case by (simp add: symbolTree_unfold [of qt "moveItemToTarget qt lt (clone y) y"]
        symbolTree_unfold [of qt y])
next
  case (3 qt lt x xs y ys)
  then show ?case
    by (simp add: symbolTree_unfold [of qt "moveItemToTarget qt lt (clone y) y"]
        symbolTree_unfold [of qt "moveItemToTarget qt lt x y"]
        symbolTree_unfold [of qt y])
qed

lemma moveItemToTarget_symbolChildren:
  "symbolChildren qt (moveItemToTarget qt lt item target) = symbolChildren qt target"
proof (induction target arbitrary: item)
  case (QStandardItem d rs)
  show ?case
    unfolding symbolChildren_def moveItemToTarget_rows
    by (rule movedRows_symbols) (use QStandardItem in simp)
qed

lemma fetchedRows_infos:
  "set (map (symbolInformationFromItem qt) (fetchedRows qt lt xs ys)) =
   set (map (symbolInformationFromItem qt) xs) \<union> set (map (symbolInformationFromItem qt) ys)"
  by (induction qt lt xs ys rule: fetchedRows.induct) auto

lemma fetchedRows_sorted:
  "transp lt \<Longrightarrow>
   (\<forall>x \<in> set xs. \<forall>y \<in> set ys.
      lt (symbolInformationFromItem qt x) (symbolInformationFromItem qt y)
      \<or> symbolInformationFromItem qt x = symbolInformationFromItem qt y
      \<or> lt (symbolInformationFromItem qt y) (symbolInformationFromItem qt x)) \<Longrightarrow>
   sorted_wrt lt (map (symbolInformationFromItem qt) xs) \<Longrightarrow>
   sorted_wrt lt (map (symbolInformationFromItem qt) ys) \<Longrightarrow>
   sorted_wrt lt (map (symbolInformationFromItem qt) (fetchedRows qt lt xs ys))"
proof (induction qt lt xs ys rule: fetchedRows.induct)
  case (1 qt lt ys)
  then show ?case by (simp add: comp_def)
next
  case (2 qt lt x xs)
  then show ?case by simp
next
  case (3 qt lt x xs y ys)
  let ?f = "symbolInformationFromItem qt"
  have tr: "transp lt" by (rule "3.prems"(1))
  have cmp: "\<forall>a \<in> set (x # xs). \<forall>b \<in> set (y # ys).
      lt (?f a) (?f b) \<or> ?f a = ?f b \<or> lt (?f b) (?f a)"
    by (rule "3.prems"(2))
  have cmp1: "\<forall>a \<in> set xs. \<forall>b \<in> set (y # ys).
      lt (?f a) (?f b) \<or> ?f a = ?f b \<or> lt (?f b) (?f a)"
    using cmp by simp
  have cmp2: "\<forall>a \<in> set xs. \<forall>b \<in> set ys.
      lt (?f a) (?f b) \<or> ?f a = ?f b \<or> lt (?f b) (?f a)"
    using cmp by simp
  have cmp3: "\<forall>a \<in> set (x # xs). \<forall>b \<in> set ys.
      lt (?f a) (?f b) \<or> ?f a = ?f b \<or> lt (?f b) (?f a)"
    using cmp by simp
  have sx: "sorted_wrt lt (map ?f xs)" and hx: "\<forall>a \<in> set xs. lt (?f x) (?f a)"
    using "3.prems"(3) by auto
  have sy: "sorted_wrt lt (map ?f ys)" and hy: "\<forall>b \<in> set ys. lt (?f y) (?f b)"
    using "3.prems"(4) by auto
  show ?case
  proof (cases "lt (?f x) (?f y)")
    case True
    have below: "\<forall>b \<in> set ys. lt (?f x) (?f b)"
      using True hy transpD [OF tr] by blast
    have "sorted_wrt lt (map ?f (fetchedRows qt lt xs (y # ys)))"
      using "3.IH"(1) [OF True tr cmp1 sx "3.prems"(4)] .
    moreover have "\<forall>i \<in> set (map ?f (fetchedRows qt lt xs (y # ys))). lt (?f x) i"
      unfolding fetchedRows_infos using hx below True by auto
    ultimately show ?thesis using True by simp
  next
    case False
    show ?thesis
    proof (cases "?f x = ?f y")
      case True
      have below: "\<forall>b \<in> set ys. lt (?f x) (?f b)"
        using True hy by simp
      have "sorted_wrt lt (map ?f (fetchedRows qt lt xs ys))"
        using "3.IH"(2) [OF False True tr cmp2 sx sy] .
      moreover have "\<forall>i \<in> set (map ?f (fetchedRows qt lt xs ys)). lt (?f x) i"
        unfolding fetchedRows_infos using hx below by auto
      ultimately show ?thesis using False True by simp
    next
      case ne: False
      have yx: "lt (?f y) (?f x)"
        using cmp False ne by auto
      have above: "\<forall>a \<in> set xs. lt (?f y) (?f a)"
        using yx hx transpD [OF tr] by blast
      have "sorted_wrt lt (map ?f (fetchedRows qt lt (x # xs) ys))"
        using "3.IH"(3) [OF False ne tr cmp3 "3.prems"(3) sy] .
      moreover have "\<forall>i \<in> set (map ?f (fetchedRows qt lt (x # xs) ys)). lt (?f y) i"
        unfolding fetchedRows_infos using yx above hy by auto
      ultimately show ?thesis using False ne by simp
    qed
  qed
qed


lemma fetchedRows_members:
  "r \<in> set (fetchedRows qt lt xs ys) \<Longrightarrow> r \<in> set xs \<or> r \<in> clone ` set ys"
  by (induction qt lt xs ys rule: fetchedRows.induct) (auto split: if_splits)


lemma sortedTree_unfold:
  "sortedTree qt lt item =
     (sortedRows qt lt item \<and> (\<forall>r \<in> set (rows item). sortedTree qt lt r))"
proof (cases item)
  case (QStandardItem d rs)
  have "symbolOf \<circ> symbolTree qt = (symbolInformationFromItem qt :: 'a QStandardItem \<Rightarrow> _)"
    by (rule ext) (simp add: symbolTree_unfold)
  then show ?thesis
    using QStandardItem by (simp add: sortedTree_def sortedRows_def)
qed

lemma sortedTree_symbolChildren:
  "symbolChildren qt a = symbolChildren qt b \<Longrightarrow> sortedTree qt lt a = sortedTree qt lt b"
  by (simp add: sortedTree_def symbolTree_unfold [of qt a] symbolTree_unfold [of qt b])

lemma sortedTree_clone: "sortedTree qt lt (clone y)"
  by (simp add: sortedTree_def clone_def)

lemma sortedTree_fetch:
  assumes "transp lt" and "sortedTree qt lt item" and "sortedTree qt lt target"
    and "comparableRows qt lt item target"
  shows "sortedTree qt lt (fetchItemToTarget qt lt item target)"
proof -
  have si: "sortedRows qt lt item" and ci: "\<forall>r \<in> set (rows item). sortedTree qt lt r"
    using assms(2) sortedTree_unfold [of qt lt item] by simp_all
  have st: "sortedRows qt lt target"
    using assms(3) sortedTree_unfold [of qt lt target] by simp
  have "sortedRows qt lt (fetchItemToTarget qt lt item target)"
    unfolding sortedRows_def fetchItemToTarget_rows
    using fetchedRows_sorted [OF assms(1), of "rows item" "rows target" qt] assms(4) si st
    by (simp add: sortedRows_def comparableRows_def)
  moreover have "\<forall>r \<in> set (rows (fetchItemToTarget qt lt item target)). sortedTree qt lt r"
    unfolding fetchItemToTarget_rows
    using fetchedRows_members [of _ qt lt "rows item" "rows target"] ci sortedTree_clone
    by blast
  ultimately show ?thesis
    using sortedTree_unfold [of qt lt "fetchItemToTarget qt lt item target"] by simp
qed

lemma movedRows_matching:
  "irreflp lt \<Longrightarrow> transp lt \<Longrightarrow>
   sorted_wrt lt (map (symbolInformationFromItem qt) xs) \<Longrightarrow>
   sorted_wrt lt (map (symbolInformationFromItem qt) ys) \<Longrightarrow>
   movedRows qt lt xs ys =
     map (\<lambda>y. case find (\<lambda>x. symbolInformationFromItem qt x = symbolInformationFromItem qt y) xs of
                 Some x \<Rightarrow> moveItemToTarget qt lt x y
               | None \<Rightarrow> moveItemToTarget qt lt (clone y) y) ys"
proof (induction qt lt xs ys rule: movedRows.induct)
  case (1 qt lt xs)
  then show ?case by simp
next
  case (2 qt lt y ys)
  then show ?case by (simp add: movedRows_Nil)
next
  case (3 qt lt x xs y ys)
  let ?f = "symbolInformationFromItem qt"
  let ?F = "\<lambda>xs y. case find (\<lambda>x. ?f x = ?f y) xs of
                 Some x \<Rightarrow> moveItemToTarget qt lt x y
               | None \<Rightarrow> moveItemToTarget qt lt (clone y) y"
  have ir: "irreflp lt" by (rule "3.prems"(1))
  have tr: "transp lt" by (rule "3.prems"(2))
  have sx: "sorted_wrt lt (map ?f xs)" and hx: "\<forall>a \<in> set xs. lt (?f x) (?f a)"
    using "3.prems"(3) by auto
  have sy: "sorted_wrt lt (map ?f ys)" and hy: "\<forall>b \<in> set ys. lt (?f y) (?f b)"
    using "3.prems"(4) by auto
  show ?case
  proof (cases "lt (?f x) (?f y)")
    case True
    have "\<forall>b \<in> set (y # ys). lt (?f x) (?f b)"
      using True hy transpD [OF tr] by auto
    then have "\<forall>b \<in> set (y # ys). ?f x \<noteq> ?f b"
      using irreflpD [OF ir] by metis
    then have "map (?F (x # xs)) (y # ys) = map (?F xs) (y # ys)"
      by (intro map_cong refl) auto
    then show ?thesis
      using "3.IH"(1) [OF True ir tr sx "3.prems"(4)] True by simp
  next
    case False
    show ?thesis
    proof (cases "?f x = ?f y")
      case True
      have "\<forall>b \<in> set ys. ?f x \<noteq> ?f b"
        using True hy irreflpD [OF ir] by metis
      then have "map (?F (x # xs)) ys = map (?F xs) ys"
        by (intro map_cong refl) auto
      then show ?thesis
        using "3.IH"(2) [OF False True ir tr sx sy] False True by simp
    next
      case ne: False
      have "\<forall>a \<in> set xs. ?f a \<noteq> ?f y"
        using hx False by metis
      then have "\<forall>a \<in> set (x # xs). ?f a \<noteq> ?f y"
        using ne by simp
      then have none: "find (\<lambda>x. ?f x = ?f y) (x # xs) = None"
        by (simp add: find_None_iff)
      show ?thesis
        using "3.IH"(3) [OF False ne ir tr "3.prems"(3) sy] False ne none by simp
    qed
  qed
qed

lemma irreflp_lessBySortKey: "irreflp (lessBySortKey code)"
  by (simp add: irreflp_def lessBySortKey_def)

lemma transp_lessBySortKey: "transp (lessBySortKey code)"
proof (rule transpI)
  fix a b c
  assume "lessBySortKey code a b" and "lessBySortKey code b c"
  then show "lessBySortKey code a c"
    unfolding lessBySortKey_def by (auto dest: less_trans)
qed

lemma exampleKeys:
  "sortKey exampleIconCode 0 = 2"
  "sortKey exampleIconCode 1 = 1"
  "sortKey exampleIconCode 2 = 1"
  "sortKey exampleIconCode 3 = 19"
  "sortKey exampleIconCode 4 = 3"
  "sortKey exampleIconCode 5 = 4"
  by (simp_all add: sortKey_def iconTypeSortOrder_def IconSortOrder_def exampleIconCode_def
      hashInsert_def hashCount_def hashContains_def hashValue_def)

lemma exampleNode_info [simp]:
  "symbolInformationFromItem exampleQt (exampleNode k rs) = SymbolInformation [] [] k"
  by (simp add: exampleNode_def symbolInformationFromItem_def setSymbolInformationToItem_def
      setData_def)

lemma exampleNode_rows [simp]: "rows (exampleNode k rs) = rs"
  by (simp add: exampleNode_def setSymbolInformationToItem_def setData_def)

lemma exampleMark_info [simp]:
  "symbolInformationFromItem qt (exampleMark item) = symbolInformationFromItem qt item"
  by (simp add: exampleMark_def symbolInformationFromItem_def setData_def)

lemma exampleMark_rows [simp]: "rows (exampleMark item) = rows item"
  by (simp add: exampleMark_def setData_def)

lemma exampleMark_markOf [simp]: "markOf (exampleMark item) = VString ''item''"
  by (simp add: exampleMark_def markOf_def setData_def)

lemma exampleNode_markOf [simp]: "markOf (exampleNode k rs) = Invalid"
  by (simp add: exampleNode_def markOf_def setSymbolInformationToItem_def setData_def)

lemma markOf_move [simp]: "markOf (moveItemToTarget qt lt item target) = markOf item"
  by (simp add: markOf_def moveItemToTarget_data)

lemma markOf_clone [simp]: "markOf (clone item) = markOf item"
  by (simp add: markOf_def clone_def)

lemma sortedTree_rows:
  "sortedTree qt lt item =
     (sorted_wrt lt (map (symbolInformationFromItem qt) (rows item))
      \<and> (\<forall>r \<in> set (rows item). sortedTree qt lt r))"
  using sortedTree_unfold [of qt lt item] by (simp add: sortedRows_def)

lemma sortedTree_exampleNode:
  "sortedTree exampleQt lt (exampleNode k rs) =
     (sorted_wrt lt (map (symbolInformationFromItem exampleQt) rs)
      \<and> (\<forall>r \<in> set rs. sortedTree exampleQt lt r))"
  using sortedTree_rows [of exampleQt lt "exampleNode k rs"] by simp

lemma sortedTree_exampleMark [simp]:
  "sortedTree qt lt (exampleMark item) = sortedTree qt lt item"
  by (rule sortedTree_symbolChildren) (simp add: symbolChildren_def)

lemma sortedTree_examples:
  "sortedTree exampleQt (lessBySortKey exampleIconCode) exampleItem"
  "sortedTree exampleQt (lessBySortKey exampleIconCode) exampleTarget"
  "sortedTree exampleQt (lessBySortKey exampleIconCode) exampleSubItem"
  by (simp_all add: exampleItem_def exampleTarget_def exampleSubItem_def sortedTree_exampleNode
      lessBySortKey_def exampleKeys)

lemma sortedRows_examples:
  "sortedRows exampleQt (lessBySortKey exampleIconCode) exampleItem"
  "sortedRows exampleQt (lessBySortKey exampleIconCode) exampleTarget"
  "sortedRows exampleQt (lessBySortKey exampleIconCode) exampleSubItem"
  by (simp_all add: exampleItem_def exampleTarget_def exampleSubItem_def sortedRows_def
      lessBySortKey_def exampleKeys)

lemma fetched_example_rows:
  "map (symbolInformationFromItem exampleQt)
     (rows (fetchItemToTarget exampleQt (lessBySortKey exampleIconCode) exampleItem exampleTarget)) =
   [SymbolInformation [] [] 2, SymbolInformation [] [] 1, SymbolInformation [] [] 3]"
  by (simp add: fetchItemToTarget_rows exampleItem_def exampleTarget_def lessBySortKey_def
      exampleKeys)

lemma fetched_example_sub_rows:
  "map (symbolInformationFromItem exampleQt)
     (rows (fetchItemToTarget exampleQt (lessBySortKey exampleIconCode) exampleSubItem exampleTarget)) =
   [SymbolInformation [] [] 2, SymbolInformation [] [] 3]"
  by (simp add: fetchItemToTarget_rows exampleSubItem_def exampleTarget_def lessBySortKey_def
      exampleKeys)


subsection \<open>Reconciliation: results\<close>

text \<open>
  C5. \<open>moveItemToTarget\<close> terminates on every input, sorted or not: every argument of
  \<open>moveItemToTarget\<close> and of each of its three loops is in the well-founded part of the
  relation between a call and the calls it makes, so that the defining equation holds with
  no condition on the arguments.
\<close>

theorem moveItemToTarget_terminates:
  "moveItemToTarget_moveMergeLoop_moveAppendLoop_dom (Inl (qt, lt, item, target))
   \<and> moveItemToTarget_moveMergeLoop_moveAppendLoop_dom (Inr (Inl (qt, lt, target, s)))
   \<and> moveItemToTarget_moveMergeLoop_moveAppendLoop_dom (Inr (Inr (qt, lt, target, s)))
   \<and> removeLoop_dom s
   \<and> moveItemToTarget qt lt item target =
       itemNow (removeLoop (moveAppendLoop qt lt target (moveMergeLoop qt lt target
         \<lparr>itemNow = item, itemIndex = 0, targetIndex = 0, itemRows = rowCount item\<rparr>)))"
  using moveItemToTarget_calls_wellfounded [THEN spec, of "Inl (qt, lt, item, target)"]
    moveItemToTarget_calls_wellfounded [THEN spec, of "Inr (Inl (qt, lt, target, s))"]
    moveItemToTarget_calls_wellfounded [THEN spec, of "Inr (Inr (qt, lt, target, s))"]
    removeLoop_calls_wellfounded [THEN spec, of s]
  by (simp add: moveItemToTarget.simps)

text \<open>
  C1. After \<open>moveItemToTarget\<close> the children of the item carry, node for node and level
  by level, the symbol information of the children of the target; the item shows the same
  tree as the naive rebuild. This holds for all trees, sorted or not.
\<close>

theorem moveItemToTarget_converges:
  "symbolChildren qt (moveItemToTarget qt lt item target) = symbolChildren qt target
   \<and> symbolTree qt (moveItemToTarget qt lt item target) = symbolTree qt (naiveRebuild item target)"
proof -
  have "symbolChildren qt (naiveRebuild item target) = symbolChildren qt target"
    by (simp add: symbolChildren_def naiveRebuild_def symbolTree_deepClone)
  moreover have "symbolInformationFromItem qt (naiveRebuild item target) =
                 symbolInformationFromItem qt item"
    by (rule symbolInformation_data) (simp add: naiveRebuild_def)
  ultimately show ?thesis
    by (simp add: moveItemToTarget_symbolChildren
        symbolTree_unfold [of qt "moveItemToTarget qt lt item target"]
        symbolTree_unfold [of qt "naiveRebuild item target"])
qed

text \<open>
  C3, as stated, fails for \<open>fetchItemToTarget\<close>: an ordering need not put one of two
  different values below the other. Under the ordering by sort keys the item 0[1, 3[5]]
  and the target 0[2[4], 3] are sorted at every node, and 1 and 2 are neither equal nor
  one below the other; \<open>fetchItemToTarget\<close> inserts 2 before 1 and leaves the rows 2, 1, 3,
  which are not sorted.
\<close>

theorem fetchItemToTarget_sorted_counterexample:
  "irreflp (lessBySortKey exampleIconCode)
   \<and> transp (lessBySortKey exampleIconCode)
   \<and> sortedTree exampleQt (lessBySortKey exampleIconCode) exampleItem
   \<and> sortedTree exampleQt (lessBySortKey exampleIconCode) exampleTarget
   \<and> map (symbolInformationFromItem exampleQt)
         (rows (fetchItemToTarget exampleQt (lessBySortKey exampleIconCode)
                  exampleItem exampleTarget)) =
       [SymbolInformation [] [] 2, SymbolInformation [] [] 1, SymbolInformation [] [] 3]
   \<and> \<not> lessBySortKey exampleIconCode (SymbolInformation [] [] 2) (SymbolInformation [] [] 1)
   \<and> \<not> sortedTree exampleQt (lessBySortKey exampleIconCode)
         (fetchItemToTarget exampleQt (lessBySortKey exampleIconCode) exampleItem exampleTarget)"
proof -
  have n: "\<not> lessBySortKey exampleIconCode (SymbolInformation [] [] 2) (SymbolInformation [] [] 1)"
    by (simp add: lessBySortKey_def exampleKeys)
  have "\<not> sorted_wrt (lessBySortKey exampleIconCode)
         (map (symbolInformationFromItem exampleQt)
            (rows (fetchItemToTarget exampleQt (lessBySortKey exampleIconCode)
                     exampleItem exampleTarget)))"
    using n by (simp add: fetched_example_rows)
  then have "\<not> sortedTree exampleQt (lessBySortKey exampleIconCode)
         (fetchItemToTarget exampleQt (lessBySortKey exampleIconCode) exampleItem exampleTarget)"
    using sortedTree_rows
        [of exampleQt "lessBySortKey exampleIconCode"
            "fetchItemToTarget exampleQt (lessBySortKey exampleIconCode) exampleItem exampleTarget"]
    by blast
  then show ?thesis
    using n fetched_example_rows sortedTree_examples irreflp_lessBySortKey transp_lessBySortKey
    by simp
qed

text \<open>
  C3, amended. After \<open>moveItemToTarget\<close> the item is sorted at every node whenever the
  target is, whatever the ordering. After \<open>fetchItemToTarget\<close> the item is sorted at every
  node when item and target are, the ordering is transitive, and the rows of the item
  and of the target are comparable.
\<close>

theorem reconciliation_keeps_sorted:
  "(sortedTree qt lt target \<longrightarrow> sortedTree qt lt (moveItemToTarget qt lt item target))
   \<and> (transp lt \<and> sortedTree qt lt item \<and> sortedTree qt lt target
        \<and> comparableRows qt lt item target \<longrightarrow>
      sortedTree qt lt (fetchItemToTarget qt lt item target))"
  using sortedTree_symbolChildren [OF moveItemToTarget_symbolChildren, of qt lt lt item target]
    sortedTree_fetch [of lt qt item target]
  by simp

theorem reconciliation_keeps_sorted_witness:
  "sortedTree exampleQt (lessBySortKey exampleIconCode) exampleTarget
   \<and> sortedTree exampleQt (lessBySortKey exampleIconCode)
       (moveItemToTarget exampleQt (lessBySortKey exampleIconCode) exampleItem exampleTarget)
   \<and> transp (lessBySortKey exampleIconCode)
   \<and> sortedTree exampleQt (lessBySortKey exampleIconCode) exampleSubItem
   \<and> comparableRows exampleQt (lessBySortKey exampleIconCode) exampleSubItem exampleTarget
   \<and> sortedTree exampleQt (lessBySortKey exampleIconCode)
       (fetchItemToTarget exampleQt (lessBySortKey exampleIconCode) exampleSubItem exampleTarget)"
proof -
  have c: "comparableRows exampleQt (lessBySortKey exampleIconCode) exampleSubItem exampleTarget"
    by (simp add: comparableRows_def exampleSubItem_def exampleTarget_def lessBySortKey_def
        exampleKeys)
  show ?thesis
    using reconciliation_keeps_sorted
        [of exampleQt "lessBySortKey exampleIconCode" exampleTarget exampleItem]
      reconciliation_keeps_sorted
        [of exampleQt "lessBySortKey exampleIconCode" exampleTarget exampleSubItem]
      c sortedTree_examples transp_lessBySortKey
    by simp
qed

text \<open>
  C4. Where the ordering is irreflexive and transitive and the rows of item and of target
  are sorted: \<open>moveItemToTarget\<close> leaves one row for each child of the target, in the order
  of the target. For a child of the target that a child of the item matches, the row is
  that child of the item, reconciled recursively; its own data are untouched (second
  part, which holds at every level). Only for a child of the target that no child of
  the item matches is the row a new clone; the children of the item that match no child
  of the target are the rows that are gone.
\<close>

theorem moveItemToTarget_keeps_matching:
  assumes "irreflp lt" and "transp lt" and "sortedRows qt lt item" and "sortedRows qt lt target"
  shows "rows (moveItemToTarget qt lt item target) = map (reconciledChild qt lt item) (rows target)
       \<and> data (moveItemToTarget qt lt item target) = data item"
  using movedRows_matching [of lt qt "rows item" "rows target"] assms
  by (simp add: moveItemToTarget_rows moveItemToTarget_data sortedRows_def reconciledChild_def)

theorem moveItemToTarget_keeps_matching_witness:
  "irreflp (lessBySortKey exampleIconCode)
   \<and> transp (lessBySortKey exampleIconCode)
   \<and> sortedRows exampleQt (lessBySortKey exampleIconCode) exampleItem
   \<and> sortedRows exampleQt (lessBySortKey exampleIconCode) exampleTarget
   \<and> map markOf (rows exampleItem) = [VString ''item'', VString ''item'']
   \<and> map markOf (rows exampleTarget) = [Invalid, Invalid]
   \<and> rows (moveItemToTarget exampleQt (lessBySortKey exampleIconCode) exampleItem exampleTarget) =
       [moveItemToTarget exampleQt (lessBySortKey exampleIconCode)
          (clone (exampleNode 2 [exampleNode 4 []])) (exampleNode 2 [exampleNode 4 []]),
        moveItemToTarget exampleQt (lessBySortKey exampleIconCode)
          (exampleMark (exampleNode 3 [exampleNode 5 []])) (exampleNode 3 [])]
   \<and> map markOf
         (rows (moveItemToTarget exampleQt (lessBySortKey exampleIconCode) exampleItem exampleTarget)) =
       [Invalid, VString ''item'']
   \<and> map (symbolTree exampleQt)
         (rows (moveItemToTarget exampleQt (lessBySortKey exampleIconCode) exampleItem exampleTarget)) =
       [SymbolTree (SymbolInformation [] [] 2) [SymbolTree (SymbolInformation [] [] 4) []],
        SymbolTree (SymbolInformation [] [] 3) []]"
proof -
  let ?lt = "lessBySortKey exampleIconCode"
  have r: "rows (moveItemToTarget exampleQt ?lt exampleItem exampleTarget) =
       [moveItemToTarget exampleQt ?lt
          (clone (exampleNode 2 [exampleNode 4 []])) (exampleNode 2 [exampleNode 4 []]),
        moveItemToTarget exampleQt ?lt
          (exampleMark (exampleNode 3 [exampleNode 5 []])) (exampleNode 3 [])]"
    using moveItemToTarget_keeps_matching
      [OF irreflp_lessBySortKey transp_lessBySortKey sortedRows_examples(1,2)]
    by (simp add: reconciledChild_def exampleItem_def exampleTarget_def)
  have m: "map markOf (rows (moveItemToTarget exampleQt ?lt exampleItem exampleTarget)) =
       [Invalid, VString ''item'']"
    by (simp add: r)
  have t: "map (symbolTree exampleQt)
         (rows (moveItemToTarget exampleQt ?lt exampleItem exampleTarget)) =
       [SymbolTree (SymbolInformation [] [] 2) [SymbolTree (SymbolInformation [] [] 4) []],
        SymbolTree (SymbolInformation [] [] 3) []]"
    using moveItemToTarget_symbolChildren [of exampleQt ?lt exampleItem exampleTarget]
    by (simp add: symbolChildren_def exampleTarget_def symbolTree_unfold)
  have i: "map markOf (rows exampleItem) = [VString ''item'', VString ''item'']"
      "map markOf (rows exampleTarget) = [Invalid, Invalid]"
    by (simp_all add: exampleItem_def exampleTarget_def)
  show ?thesis
    using r m t i irreflp_lessBySortKey transp_lessBySortKey sortedRows_examples
    by simp
qed





subsection \<open>Item data and symbol information\<close>

text \<open>
  C8. Reading the symbol information of an item back after writing it gives the
  information written: name, type and icon type are unchanged, whatever the item held
  before and whatever the conversions of Qt between numbers and strings do.
\<close>

theorem symbolInformation_roundtrip:
  "symbolInformationFromItem qt (setSymbolInformationToItem info item) = info"
  by (cases info) (simp add: symbolInformationFromItem_def setSymbolInformationToItem_def setData_def)

subsection \<open>Locations\<close>

lemma locationsToRole_fold:
  "fold (\<lambda>loc locationsVar. locationsVar @ [VLocation loc]) locations acc =
     acc @ map VLocation locations"
  by (induction locations arbitrary: acc) auto

lemma roleToLocations_fold:
  "fold (\<lambda>loc locations.
           case toSymbolLocation loc of Some l \<Rightarrow> insert l locations | None \<Rightarrow> locations)
        (map VLocation xs) acc = set xs \<union> acc"
  by (induction xs arbitrary: acc) auto

text \<open>
  C9. Converting a set of locations to its list of variants and back gives the set: in
  whatever order the set is visited, every element survives and no other appears.
\<close>

theorem locations_roundtrip:
  "roleToLocations (locationsToRole locations) = set locations"
  by (simp add: roleToLocations_def locationsToRole_def locationsToRole_fold roleToLocations_fold)

subsection \<open>Icon sort order\<close>

lemma update_fresh: "k \<notin> fst ` set al \<Longrightarrow> AList.update k v al = al @ [(k, v)]"
  by (induction al) auto

lemma sortOrder_fold:
  "distinct (map fst h @ xs) \<Longrightarrow>
   fold (\<lambda>i sortOrder. hashInsert i (hashCount sortOrder) sortOrder) xs h =
     h @ zip xs (map int [length h ..< length h + length xs])"
proof (induction xs arbitrary: h)
  case Nil
  then show ?case by simp
next
  case (Cons x xs)
  have fresh: "x \<notin> fst ` set h" using Cons.prems by auto
  have step: "hashInsert x (hashCount h) h = h @ [(x, int (length h))]"
    by (simp add: hashInsert_def hashCount_def update_fresh [OF fresh])
  have d: "distinct (map fst (h @ [(x, int (length h))]) @ xs)"
    using Cons.prems by auto
  have u: "[length h ..< Suc (length h + length xs)] =
           length h # [Suc (length h) ..< Suc (length h + length xs)]"
    by (rule upt_conv_Cons) simp
  show ?case
    using Cons.IH [OF d] by (simp add: step u del: upt_Suc)
qed

lemma sortOrder_init:
  "distinct xs \<Longrightarrow>
   fold (\<lambda>i sortOrder. hashInsert i (hashCount sortOrder) sortOrder) xs [] =
     zip xs (map int [0 ..< length xs])"
  using sortOrder_fold [of "[]" xs] by simp

lemma map_of_sortOrder_in:
  "distinct xs \<Longrightarrow> i < length xs \<Longrightarrow>
   map_of (zip xs (map int [0 ..< length xs])) (xs ! i) = Some (int i)"
  using map_of_zip_nth [of xs "map int [0 ..< length xs]" i] by simp

lemma map_of_sortOrder_out:
  "k \<notin> set xs \<Longrightarrow> map_of (zip xs (map int [0 ..< length xs])) k = None"
  using map_of_zip_is_None [of xs "map int [0 ..< length xs]" k] by simp

lemma distinct_IconSortOrder: "inj code \<Longrightarrow> distinct (IconSortOrder code)"
  unfolding IconSortOrder_def by (subst distinct_map) (simp add: inj_on_def inj_def)

lemma inj_exampleIconCode: "inj exampleIconCode"
proof (rule injI)
  fix x y assume "exampleIconCode x = exampleIconCode y"
  then show "x = y"
    by (cases x; cases y; simp add: exampleIconCode_def)
qed

text \<open>
  C10. Where the enumerators have distinct values, and the static table is either still
  empty (first call) or as an earlier call left it: an icon kind listed in
  \<open>IconSortOrder\<close> gets its zero-based position in the table; an integer not listed is
  returned unchanged, so that an unlisted integer within the range of positions gets the
  same sort key as the listed kind at that position. Every call leaves the same table.
\<close>

theorem iconTypeSortOrder_positions:
  assumes "inj code"
    and "sortOrder = [] \<or> sortOrder = snd (iconTypeSortOrder code [] earlier)"
  shows "(i < length (IconSortOrder code) \<longrightarrow>
            fst (iconTypeSortOrder code sortOrder (IconSortOrder code ! i)) = int i)
       \<and> (icon \<notin> set (IconSortOrder code) \<longrightarrow>
            fst (iconTypeSortOrder code sortOrder icon) = icon)
       \<and> (icon \<notin> set (IconSortOrder code) \<and> 0 \<le> icon
              \<and> nat icon < length (IconSortOrder code) \<longrightarrow>
            fst (iconTypeSortOrder code sortOrder icon) =
            fst (iconTypeSortOrder code sortOrder (IconSortOrder code ! nat icon)))
       \<and> snd (iconTypeSortOrder code sortOrder icon) = snd (iconTypeSortOrder code [] earlier)"
proof -
  let ?tbl = "IconSortOrder code"
  let ?init = "zip ?tbl (map int [0 ..< length ?tbl])"
  have d: "distinct ?tbl" by (rule distinct_IconSortOrder [OF assms(1)])
  have ne: "?init \<noteq> []" by (simp add: IconSortOrder_def)
  have first: "iconTypeSortOrder code [] k =
      (if map_of ?init k = None then (k, ?init) else (hashValue ?init k, ?init))" for k
    by (simp add: iconTypeSortOrder_def sortOrder_init [OF d] hashContains_def Let_def)
  have later: "iconTypeSortOrder code ?init k =
      (if map_of ?init k = None then (k, ?init) else (hashValue ?init k, ?init))" for k
    using ne by (simp add: iconTypeSortOrder_def hashContains_def Let_def)
  have st: "snd (iconTypeSortOrder code [] earlier) = ?init"
    by (simp add: first)
  have any: "iconTypeSortOrder code sortOrder k =
      (if map_of ?init k = None then (k, ?init) else (hashValue ?init k, ?init))" for k
    using assms(2) first later st by metis
  have inT: "fst (iconTypeSortOrder code sortOrder (?tbl ! j)) = int j" if "j < length ?tbl" for j
    using map_of_sortOrder_in [OF d that] by (simp add: any hashValue_def)
  have outT: "fst (iconTypeSortOrder code sortOrder k) = k" if "k \<notin> set ?tbl" for k
    using map_of_sortOrder_out [OF that] by (simp add: any)
  have sndT: "snd (iconTypeSortOrder code sortOrder icon) = ?init"
    by (simp add: any)
  show ?thesis
    using inT outT sndT st by simp
qed

theorem iconTypeSortOrder_positions_witness:
  "inj exampleIconCode
   \<and> fst (iconTypeSortOrder exampleIconCode [] (exampleIconCode Class)) = 2
   \<and> fst (iconTypeSortOrder exampleIconCode [] 1) = 1
   \<and> fst (iconTypeSortOrder exampleIconCode [] (exampleIconCode Enum)) = 1"
proof -
  have tbl: "IconSortOrder exampleIconCode =
      [10, 2, 0, 4, 5, 6, 7, 8, 9, 17, 18, 19, 20, 11, 12, 13, 14, 15, 16, 3, 21, 22, 24]"
    by (simp add: IconSortOrder_def exampleIconCode_def)
  have a: "fst (iconTypeSortOrder exampleIconCode [] (exampleIconCode Class)) = 2"
    using iconTypeSortOrder_positions [OF inj_exampleIconCode, of "[]" 0 2 1]
    by (simp add: tbl) (simp add: exampleIconCode_def)
  have b: "fst (iconTypeSortOrder exampleIconCode [] 1) = 1"
    using iconTypeSortOrder_positions [OF inj_exampleIconCode, of "[]" 0 2 1]
    by (simp add: tbl)
  have c: "fst (iconTypeSortOrder exampleIconCode [] (exampleIconCode Enum)) = 1"
    using iconTypeSortOrder_positions [OF inj_exampleIconCode, of "[]" 0 1 1]
    by (simp add: tbl) (simp add: exampleIconCode_def)
  show ?thesis using a b c inj_exampleIconCode by simp
qed

subsection \<open>QNX environment discovery\<close>

lemma indexOf_absent: "c \<notin> set s \<Longrightarrow> indexOf s c = - 1"
  by (induction s) auto

lemma indexOf_present:
  "c \<in> set s \<Longrightarrow> indexOf s c = int (length (takeWhile (\<lambda>x. x \<noteq> c) s))"
  by (induction s) (auto simp: indexOf_absent)

lemma indexOf_negative: "(indexOf s c < 0) = (c \<notin> set s)"
  by (cases "c \<in> set s") (simp_all add: indexOf_absent indexOf_present)

lemma left_indexOf:
  "c \<in> set s \<Longrightarrow> left s (indexOf s c) = takeWhile (\<lambda>x. x \<noteq> c) s"
  by (simp add: left_def indexOf_present takeWhile_eq_take [symmetric])

lemma mid_indexOf:
  "c \<in> set s \<Longrightarrow> mid s (indexOf s c + 1) = tl (dropWhile (\<lambda>x. x \<noteq> c) s)"
  by (simp add: mid_def indexOf_present dropWhile_eq_drop drop_Suc nat_add_distrib tl_drop)

lemma parseOutput_items:
  "parseOutput str items =
     items @ map (\<lambda>line. EnvironmentItem (takeWhile (\<lambda>x. x \<noteq> CHR ''='') line)
                                      (tl (dropWhile (\<lambda>x. x \<noteq> CHR ''='') line)))
                 (filter (\<lambda>line. CHR ''='' \<in> set line) str)"
proof (induction str arbitrary: items)
  case Nil
  then show ?case by simp
next
  case (Cons line str)
  show ?case
  proof (cases "CHR ''='' \<in> set line")
    case True
    then show ?thesis
      using Cons.IH by (simp add: Let_def indexOf_negative left_indexOf mid_indexOf)
  next
    case False
    then show ?thesis
      using Cons.IH by (simp add: Let_def indexOf_negative)
  qed
qed

text \<open>
  C6. \<open>qnxEnvironmentFromEnvFile\<close> returns the empty list when the env file does not
  exist, when the temporary script cannot be created, when the process has not finished in
  time (\<open>waitForFinished\<close> failed and the process is not in the state \<open>NotRunning\<close>: the
  test of the source), and when the process exits abnormally or with a nonzero exit code.
  Otherwise it returns, in order, one item for each line of output that contains \<open>=\<close>,
  with the text before the first \<open>=\<close> as the name and the text after it as the value;
  the other lines are skipped.
\<close>

theorem qnxEnvironmentFromEnvFile_result:
  "qnxEnvironmentFromEnvFile host fileName =
     (case openTemporaryFile host (tmpFileTemplate host) of
        None \<Rightarrow> []
      | Some tmpFileName \<Rightarrow>
          if \<not> fileExists host fileName
             \<or> \<not> (waitForFinished (wrapperProcess host fileName tmpFileName)
                   \<or> processState (wrapperProcess host fileName tmpFileName) = NotRunning)
             \<or> exitStatus (wrapperProcess host fileName tmpFileName) \<noteq> NormalExit
             \<or> exitCode (wrapperProcess host fileName tmpFileName) \<noteq> 0
          then []
          else map (\<lambda>line. EnvironmentItem (takeWhile (\<lambda>x. x \<noteq> CHR ''='') line)
                                          (tl (dropWhile (\<lambda>x. x \<noteq> CHR ''='') line)))
                   (filter (\<lambda>line. CHR ''='' \<in> set line)
                      (outputLines (wrapperProcess host fileName tmpFileName))))"
  by (simp add: qnxEnvironmentFromEnvFile_def Let_def parseOutput_items split: option.split)

theorem qnxEnvironmentFromEnvFile_result_witness:
  "fileExists exampleHost ''/opt/env.sh''
   \<and> qnxEnvironmentFromEnvFile exampleHost ''/opt/env.sh'' =
       [EnvironmentItem ''QNX_HOST'' ''/opt/qnx'', EnvironmentItem ''QDE'' ''a=b'']
   \<and> qnxEnvironmentFromEnvFile exampleHost ''/opt/other.sh'' = []"
  using qnxEnvironmentFromEnvFile_result [of exampleHost "''/opt/env.sh''"]
    qnxEnvironmentFromEnvFile_result [of exampleHost "''/opt/other.sh''"]
  by (simp add: exampleHost_def exampleProcess_def wrapperProcess_def)

subsection \<open>The qmldump helper\<close>

text \<open>
  C7. A path returned by \<open>qmlDumpPath\<close> that is not empty is the tool found for the
  project, and it exists and is a file; nothing changes then. A tool that is found and
  does not exist or is not a file gives the empty path, and no build is registered or
  started. When no tool is found the path is empty, no warning is printed, and at most
  one build is started: none, or one for the version of the project, and that only when no
  build was registered for it.
\<close>

theorem qmlDumpPath_existing_file:
  "(fst (qmlDumpPath env st project) \<noteq> [] \<longrightarrow>
      fst (qmlDumpPath env st project) = toolForProject env project
      \<and> qfileExists env (fst (qmlDumpPath env st project))
      \<and> qfileIsFile env (fst (qmlDumpPath env st project))
      \<and> snd (qmlDumpPath env st project) = st)
   \<and> (toolForProject env project \<noteq> []
        \<and> \<not> (qfileExists env (toolForProject env project)
               \<and> qfileIsFile env (toolForProject env project)) \<longrightarrow>
      fst (qmlDumpPath env st project) = []
      \<and> qmlDumpBuilds (snd (qmlDumpPath env st project)) = qmlDumpBuilds st
      \<and> startedBuilds (snd (qmlDumpPath env st project)) = startedBuilds st)
   \<and> (toolForProject env project = [] \<longrightarrow>
      fst (qmlDumpPath env st project) = []
      \<and> warnings (snd (qmlDumpPath env st project)) = warnings st
      \<and> (startedBuilds (snd (qmlDumpPath env st project)) = startedBuilds st
          \<or> (\<exists>v. qtVersionForProject env project = Some v
                  \<and> qmlDumpBuilds st (uniqueId v) = None
                  \<and> startedBuilds (snd (qmlDumpPath env st project)) =
                      startedBuilds st @ [uniqueId v])))"
  by (auto simp: qmlDumpPath_def checkQmlDumpFile_def updateProjectWhenDone_def
      newQmlDumpBuildTask_def Let_def split: option.splits)

theorem qmlDumpPath_existing_file_witness:
  "fst (qmlDumpPath exampleQmlDumpEnv exampleQmlDumpState 0) = ''/qt/a/qmldump''
   \<and> qfileExists exampleQmlDumpEnv ''/qt/a/qmldump''
   \<and> qfileIsFile exampleQmlDumpEnv ''/qt/a/qmldump''
   \<and> toolForProject exampleQmlDumpEnv 2 = ''/qt/c/qmldump''
   \<and> fst (qmlDumpPath exampleQmlDumpEnv exampleQmlDumpState 2) = []
   \<and> toolForProject exampleQmlDumpEnv 1 = []
   \<and> fst (qmlDumpPath exampleQmlDumpEnv exampleQmlDumpState 1) = []
   \<and> startedBuilds (snd (qmlDumpPath exampleQmlDumpEnv exampleQmlDumpState 1)) = [2]"
proof -
  have t0: "toolForProject exampleQmlDumpEnv 0 = ''/qt/a/qmldump''"
    and t1: "toolForProject exampleQmlDumpEnv 1 = []"
    and t2: "toolForProject exampleQmlDumpEnv 2 = ''/qt/c/qmldump''"
    by (simp_all add: toolForProject_def exampleQmlDumpEnv_def)
  have f: "qfileExists exampleQmlDumpEnv ''/qt/a/qmldump''"
      "qfileIsFile exampleQmlDumpEnv ''/qt/a/qmldump''"
      "\<not> qfileExists exampleQmlDumpEnv ''/qt/c/qmldump''"
    by (simp_all add: exampleQmlDumpEnv_def)
  have p0: "fst (qmlDumpPath exampleQmlDumpEnv exampleQmlDumpState 0) = ''/qt/a/qmldump''"
    by (simp add: qmlDumpPath_def checkQmlDumpFile_def toolForProject_def Let_def
        exampleQmlDumpEnv_def)
  have v1: "qtVersionForProject exampleQmlDumpEnv 1 = Some \<lparr>uniqueId = 2, qtInstallData = ''/qt/b''\<rparr>"
    by (simp add: exampleQmlDumpEnv_def)
  have b1: "qmlDumpBuilds exampleQmlDumpState 2 = None" "startedBuilds exampleQmlDumpState = []"
    by (simp_all add: exampleQmlDumpState_def)
  have s1: "startedBuilds (snd (qmlDumpPath exampleQmlDumpEnv exampleQmlDumpState 1)) = [2]"
    by (simp add: qmlDumpPath_def t1 v1 b1 newQmlDumpBuildTask_def updateProjectWhenDone_def
        Let_def)
  show ?thesis
    using qmlDumpPath_existing_file [of exampleQmlDumpEnv exampleQmlDumpState 0]
      qmlDumpPath_existing_file [of exampleQmlDumpEnv exampleQmlDumpState 1]
      qmlDumpPath_existing_file [of exampleQmlDumpEnv exampleQmlDumpState 2]
      t0 t1 t2 f p0 s1
    by simp
qed

end
